theory Spec2Isabelle
  imports Complex_Main "HOL-Library.AList"
begin

section \<open>Python values\<close>

text \<open>
  A Python \<open>str\<close> is a sequence of Unicode code points, and \<open>len\<close> and slicing count code
  points. A string is therefore a list of code points (natural numbers); \<open>lit\<close> writes an
  ASCII literal of the source.
\<close>

type_synonym pystr = "nat list"

definition lit :: "string \<Rightarrow> pystr" where
  "lit s = map of_char s"

text \<open>
  The values that travel through the dictionaries of the program (document sections, chunks,
  search hits decoded from JSON). A dictionary is an association list in insertion order,
  read with \<open>map_of\<close> and written with \<open>AList.update\<close> (an existing key keeps its
  place, a new key goes to the end).
\<close>

datatype pyval =
    VNone
  | VBool bool
  | VInt int
  | VFloat real
  | VStr pystr
  | VList "pyval list"
  | VDict "(pystr \<times> pyval) list"

type_synonym pydict = "(pystr \<times> pyval) list"

text \<open>\<open>{**d, **m}\<close>: the entries of \<open>m\<close> are written over those of \<open>d\<close>, in order.\<close>

definition dict_merge :: "pydict \<Rightarrow> pydict \<Rightarrow> pydict" where
  "dict_merge d m = foldl (\<lambda>acc kv. AList.update (fst kv) (snd kv) acc) d m"

section \<open>utils/chunker.py\<close>

text \<open>
  \<open>str.isspace\<close> for one code point: the code points that CPython's Unicode database
  marks as whitespace.
\<close>

definition py_isspace :: "nat \<Rightarrow> bool" where
  "py_isspace c =
     ((9 \<le> c \<and> c \<le> 13) \<or> (28 \<le> c \<and> c \<le> 32) \<or> c = 133 \<or> c = 160 \<or> c = 5760
      \<or> (8192 \<le> c \<and> c \<le> 8202) \<or> c = 8232 \<or> c = 8233 \<or> c = 8239 \<or> c = 8287
      \<or> c = 12288)"

text \<open>\<open>s.strip()\<close>: leading and trailing whitespace removed.\<close>

definition strip :: "pystr \<Rightarrow> pystr" where
  "strip s = rev (dropWhile py_isspace (rev (dropWhile py_isspace s)))"

text \<open>
  \<open>xs[i:j]\<close> with Python's reading of the bounds: a negative bound counts from the end,
  and every bound is clamped to \<open>0 .. len(xs)\<close>.
\<close>

definition slice_index :: "nat \<Rightarrow> int \<Rightarrow> nat" where
  "slice_index n i = (if i < 0 then nat (max (i + int n) 0) else min (nat i) n)"

definition py_slice :: "'a list \<Rightarrow> int \<Rightarrow> int \<Rightarrow> 'a list" where
  "py_slice xs i j =
     (let lo = slice_index (length xs) i; hi = slice_index (length xs) j
      in take (hi - lo) (drop lo xs))"

text \<open>
  The dictionary appended for a non-empty window:
  \<open>{"text": chunk, "chunk_index": chunk_index, **(metadata or {})}\<close>.
\<close>

definition chunk_data :: "pystr \<Rightarrow> int \<Rightarrow> pydict \<Rightarrow> pydict" where
  "chunk_data chunk chunk_index metadata =
     dict_merge [(lit ''text'', VStr chunk), (lit ''chunk_index'', VInt chunk_index)] metadata"

text \<open>
  The \<open>while start < len(text)\<close> loop of \<open>chunk_text\<close>, one unfolding per iteration. The
  loop need not terminate, so it is a partial function: \<open>None\<close> is the run that never
  returns. \<open>iters\<close> is a ghost counter of the executed loop bodies; it is not part of what
  the Python function returns.
\<close>

partial_function (option) chunk_loop ::
  "pystr \<Rightarrow> int \<Rightarrow> int \<Rightarrow> pydict \<Rightarrow> int \<Rightarrow> int \<Rightarrow> pydict list \<Rightarrow> nat
     \<Rightarrow> (pydict list \<times> nat) option"
where
  "chunk_loop text chunk_size chunk_overlap metadata start chunk_index chunks iters =
     (if start < int (length text) then
        (let end = start + chunk_size;
             chunk = strip (py_slice text start end);
             chunks' = (if chunk \<noteq> [] then chunks @ [chunk_data chunk chunk_index metadata]
                        else chunks);
             chunk_index' = (if chunk \<noteq> [] then chunk_index + 1 else chunk_index);
             start' = end - chunk_overlap
         in if start' \<ge> int (length text) then Some (chunks', Suc iters)
            else chunk_loop text chunk_size chunk_overlap metadata start' chunk_index' chunks'
                   (Suc iters))
      else Some (chunks, iters))"

declare chunk_loop.simps [code]

text \<open>\<open>metadata or {}\<close>: \<open>None\<close> (and the empty dictionary) read as the empty dictionary.\<close>

definition or_empty :: "pydict option \<Rightarrow> pydict" where
  "or_empty metadata = (case metadata of None \<Rightarrow> [] | Some m \<Rightarrow> m)"

text \<open>
  \<open>chunk_text(text, chunk_size, chunk_overlap, metadata)\<close> with its ghost iteration count,
  and the function as the caller sees it.
\<close>

definition chunk_text_run ::
  "pystr \<Rightarrow> int \<Rightarrow> int \<Rightarrow> pydict option \<Rightarrow> (pydict list \<times> nat) option" where
  "chunk_text_run text chunk_size chunk_overlap metadata =
     (if text = [] \<or> strip text = [] then Some ([], 0)
      else chunk_loop text chunk_size chunk_overlap (or_empty metadata) 0 0 [] 0)"

definition chunk_text :: "pystr \<Rightarrow> int \<Rightarrow> int \<Rightarrow> pydict option \<Rightarrow> pydict list option" where
  "chunk_text text chunk_size chunk_overlap metadata =
     map_option fst (chunk_text_run text chunk_size chunk_overlap metadata)"

text \<open>The trimmed window that the loop body reads when the cursor is at \<open>start\<close>.\<close>

definition window :: "pystr \<Rightarrow> int \<Rightarrow> int \<Rightarrow> pystr" where
  "window text chunk_size start = strip (py_slice text start (start + chunk_size))"

text \<open>The two entries that \<open>chunk_text\<close> itself writes into a chunk.\<close>

definition chunk_text_of :: "pydict \<Rightarrow> pyval option" where
  "chunk_text_of c = map_of c (lit ''text'')"

definition chunk_index_of :: "pydict \<Rightarrow> pyval option" where
  "chunk_index_of c = map_of c (lit ''chunk_index'')"

subsection \<open>Auxiliary notions for the chunker's loop\<close>

text \<open>
  The cursor positions of \<open>m\<close> successive iterations from \<open>start\<close>, the chunks the loop
  body appends when it visits a list of cursor positions, and the number of iterations left
  when the cursor is at \<open>start\<close> and advances by \<open>step > 0\<close> (the ceiling of
  \<open>(n - start) / step\<close>).
\<close>

fun cursors :: "nat \<Rightarrow> int \<Rightarrow> int \<Rightarrow> int list" where
  "cursors 0 start step = []"
| "cursors (Suc m) start step = start # cursors m (start + step) step"

fun emit :: "pystr \<Rightarrow> int \<Rightarrow> pydict \<Rightarrow> int list \<Rightarrow> int \<Rightarrow> pydict list" where
  "emit text chunk_size metadata [] chunk_index = []"
| "emit text chunk_size metadata (s # ss) chunk_index =
     (if window text chunk_size s \<noteq> []
      then chunk_data (window text chunk_size s) chunk_index metadata
             # emit text chunk_size metadata ss (chunk_index + 1)
      else emit text chunk_size metadata ss chunk_index)"

definition windows_left :: "nat \<Rightarrow> int \<Rightarrow> int \<Rightarrow> nat" where
  "windows_left n step start = nat (- ((start - int n) div step))"

text \<open>
  The loop's invariant on the accumulated list: every chunk carries, under \<open>text\<close>, the
  non-empty trimmed window of some cursor position before the end of the text.
\<close>

definition from_windows :: "pystr \<Rightarrow> int \<Rightarrow> pydict list \<Rightarrow> bool" where
  "from_windows text chunk_size chunks \<longleftrightarrow>
     (\<forall>c \<in> set chunks. \<exists>s. s < int (length text) \<and> window text chunk_size s \<noteq> []
        \<and> chunk_text_of c = Some (VStr (window text chunk_size s)))"

section \<open>Exceptions, truth values and \<open>str()\<close>\<close>

text \<open>
  The exceptions the modelled code can raise; a function that can raise returns
  \<open>pyexn + 'a\<close>, with \<open>Inl\<close> the exception. \<open>ExternalError\<close> stands for whatever a call
  into a library or over the network raises.
\<close>

datatype pyexn =
  AttributeError | KeyError | TypeError | IndexError | ValueError pystr | ExternalError pystr

definition py_bind :: "pyexn + 'a \<Rightarrow> ('a \<Rightarrow> pyexn + 'b) \<Rightarrow> pyexn + 'b" where
  "py_bind r f = (case r of Inl e \<Rightarrow> Inl e | Inr v \<Rightarrow> f v)"

text \<open>\<open>bool(v)\<close>, as an \<open>if\<close> tests it.\<close>

fun truthy :: "pyval \<Rightarrow> bool" where
  "truthy VNone = False"
| "truthy (VBool b) = b"
| "truthy (VInt i) = (i \<noteq> 0)"
| "truthy (VFloat r) = (r \<noteq> 0)"
| "truthy (VStr s) = (s \<noteq> [])"
| "truthy (VList xs) = (xs \<noteq> [])"
| "truthy (VDict d) = (d \<noteq> [])"

text \<open>\<open>str(n)\<close> for an integer: decimal digits, with a minus sign when negative.\<close>

function nat_str :: "nat \<Rightarrow> pystr" where
  "nat_str n = (if n < 10 then [48 + n] else nat_str (n div 10) @ [48 + n mod 10])"
  by pat_completeness auto
termination
  by (relation "measure id") auto

declare nat_str.simps [simp del]

definition int_str :: "int \<Rightarrow> pystr" where
  "int_str i = (if i < 0 then 45 # nat_str (nat (- i)) else nat_str (nat i))"

text \<open>
  \<open>str(v)\<close>, which is also what an f-string field \<open>{v}\<close> inserts. How CPython prints a
  float, a list or a dictionary is not modelled: it is the parameter \<open>render\<close>, and every
  result below holds for any such function.
\<close>

fun py_str :: "(pyval \<Rightarrow> pystr) \<Rightarrow> pyval \<Rightarrow> pystr" where
  "py_str render VNone = lit ''None''"
| "py_str render (VBool b) = (if b then lit ''True'' else lit ''False'')"
| "py_str render (VInt i) = int_str i"
| "py_str render (VStr s) = s"
| "py_str render v = render v"

text \<open>
  \<open>d.get(k, dflt)\<close> on a dictionary, and the same call on an arbitrary value: only a
  dictionary has the method, anything else raises \<open>AttributeError\<close>.
\<close>

definition dict_get :: "pydict \<Rightarrow> pystr \<Rightarrow> pyval \<Rightarrow> pyval" where
  "dict_get d k dflt = (case map_of d k of None \<Rightarrow> dflt | Some v \<Rightarrow> v)"

definition py_get :: "pyval \<Rightarrow> pystr \<Rightarrow> pyval \<Rightarrow> pyexn + pyval" where
  "py_get obj k dflt =
     (case obj of VDict d \<Rightarrow> Inr (dict_get d k dflt) | _ \<Rightarrow> Inl AttributeError)"

section \<open>rag\_pipeline.py: citations and the prompt\<close>

text \<open>
  The \<open>if\<close> / \<open>elif\<close> / \<open>else\<close> of \<open>format_citation\<close> that sets \<open>location\<close>. The
  subscripts \<open>chunk['page_number']\<close> and \<open>chunk['paragraph_index']\<close> are evaluated only
  where \<open>chunk.get\<close> of the same key was truthy, so the key is present there and the
  subscript is the value \<open>get\<close> returned.
\<close>

definition location :: "(pyval \<Rightarrow> pystr) \<Rightarrow> pydict \<Rightarrow> pystr" where
  "location render chunk =
     (if truthy (dict_get chunk (lit ''page_number'') VNone)
      then lit ''page '' @ py_str render (dict_get chunk (lit ''page_number'') VNone)
      else if truthy (dict_get chunk (lit ''paragraph_index'') VNone)
      then lit ''para '' @ py_str render (dict_get chunk (lit ''paragraph_index'') VNone)
      else lit ''chunk '' @ py_str render (dict_get chunk (lit ''chunk_index'') (VInt 0)))"

text \<open>
  \<open>format_citation\<close>: \<open>f"[{doc_name} \<dots> {location}]"\<close>, the separator being a space, an
  en dash (code point 8211) and a space.
\<close>

definition format_citation :: "(pyval \<Rightarrow> pystr) \<Rightarrow> pydict \<Rightarrow> pystr" where
  "format_citation render chunk =
     (let doc_name = dict_get chunk (lit ''document_name'') (VStr (lit ''Unknown''))
      in lit ''['' @ py_str render doc_name @ [32, 8211, 32] @ location render chunk @ lit '']'')"

text \<open>\<open>sep.join(parts)\<close>.\<close>

definition py_join :: "pystr \<Rightarrow> pystr list \<Rightarrow> pystr" where
  "py_join sep parts =
     (case parts of [] \<Rightarrow> [] | p # ps \<Rightarrow> p @ concat (map (\<lambda>q. sep @ q) ps))"

text \<open>
  One element of \<open>context_parts\<close>: \<open>f"[{idx}] {citation}\n{chunk['text']}\n"\<close> (code
  point 10 is the newline).
\<close>

definition context_block :: "(pyval \<Rightarrow> pystr) \<Rightarrow> nat \<Rightarrow> pydict \<Rightarrow> pyval \<Rightarrow> pystr" where
  "context_block render idx chunk txt =
     lit ''['' @ nat_str idx @ lit ''] '' @ format_citation render chunk @ [10]
       @ py_str render txt @ [10]"

text \<open>
  The loop \<open>for idx, chunk in enumerate(chunks, 1)\<close> of \<open>construct_prompt\<close>, with the list
  \<open>context_parts\<close> as accumulator. The subscript \<open>chunk['text']\<close> raises \<open>KeyError\<close> on a
  chunk without that key.
\<close>

fun context_parts ::
  "(pyval \<Rightarrow> pystr) \<Rightarrow> nat \<Rightarrow> pydict list \<Rightarrow> pystr list \<Rightarrow> pyexn + pystr list" where
  "context_parts render idx [] parts = Inr parts"
| "context_parts render idx (chunk # rest) parts =
     (case map_of chunk (lit ''text'') of
        None \<Rightarrow> Inl KeyError
      | Some txt \<Rightarrow>
          context_parts render (Suc idx) rest (parts @ [context_block render idx chunk txt]))"

text \<open>The fixed text of the prompt around the context and the query.\<close>

definition prompt_head :: pystr where
  "prompt_head =
     lit ''You are a helpful assistant that answers questions based on the provided context.''
     @ [10, 10] @ lit ''CONTEXT:'' @ [10]"

definition prompt_instructions :: pystr where
  "prompt_instructions =
     [10, 10] @ lit ''INSTRUCTIONS:'' @ [10]
     @ lit ''1. Answer the user'' @ [39]
     @ lit ''s question using ONLY the information from the context above'' @ [10]
     @ lit ''2. After EACH sentence in your answer, add an inline citation in the format [source_name ''
     @ [8211] @ lit '' page/section]'' @ [10]
     @ lit ''3. Use the exact citation format shown in the context (e.g., [document.pdf ''
     @ [8211] @ lit '' page 5])'' @ [10]
     @ lit ''4. If the context doesn'' @ [39]
     @ lit ''t contain enough information to answer, say so clearly'' @ [10]
     @ lit ''5. Be concise and accurate'' @ [10, 10]
     @ lit ''USER QUESTION:'' @ [10]"

definition prompt_tail :: pystr where
  "prompt_tail = [10, 10] @ lit ''ANSWER:''"

definition construct_prompt :: "(pyval \<Rightarrow> pystr) \<Rightarrow> pystr \<Rightarrow> pydict list \<Rightarrow> pyexn + pystr" where
  "construct_prompt render query chunks =
     py_bind (context_parts render 1 chunks [])
       (\<lambda>parts. Inr (prompt_head @ py_join [10] parts @ prompt_instructions @ query
                       @ prompt_tail))"

section \<open>retriever.py: normalising the hits\<close>

text \<open>
  The body of the loop \<open>for item in result["results"]\<close>: the chunk dictionary built from
  one hit. Every read is a \<open>.get\<close> with a default (\<open>None\<close> for the two location keys), on
  the hit and on its \<open>metadata\<close>.
\<close>

definition normalize_hit :: "pyval \<Rightarrow> pyexn + pydict" where
  "normalize_hit item =
     py_bind (py_get item (lit ''metadata'') (VDict [])) (\<lambda>metadata.
     py_bind (py_get item (lit ''id'') (VStr [])) (\<lambda>hit_id.
     py_bind (py_get item (lit ''score'') (VFloat 0)) (\<lambda>score.
     py_bind (py_get metadata (lit ''text'') (VStr [])) (\<lambda>txt.
     py_bind (py_get metadata (lit ''document_name'') (VStr [])) (\<lambda>document_name.
     py_bind (py_get metadata (lit ''page_number'') VNone) (\<lambda>page_number.
     py_bind (py_get metadata (lit ''paragraph_index'') VNone) (\<lambda>paragraph_index.
     py_bind (py_get metadata (lit ''chunk_index'') (VInt 0)) (\<lambda>chunk_index.
       Inr [(lit ''id'', hit_id),
            (lit ''similarity'', score),
            (lit ''text'', txt),
            (lit ''document_name'', document_name),
            (lit ''page_number'', page_number),
            (lit ''paragraph_index'', paragraph_index),
            (lit ''chunk_index'', chunk_index)]))))))))"

text \<open>The loop itself, with the list \<open>chunks\<close> as accumulator; an exception ends it.\<close>

fun normalize_hits :: "pyval list \<Rightarrow> pydict list \<Rightarrow> pyexn + pydict list" where
  "normalize_hits [] chunks = Inr chunks"
| "normalize_hits (item # rest) chunks =
     py_bind (normalize_hit item) (\<lambda>chunk. normalize_hits rest (chunks @ [chunk]))"

text \<open>
  What the normaliser is expected to produce: the entries of a hit (none when the hit is not
  a dictionary), its \<open>metadata\<close> object (empty when absent), the hits on which every
  \<open>.get\<close> of the loop body is defined (a dictionary whose \<open>metadata\<close>, when present, is a
  dictionary), and the chunk with each missing field replaced by its default.
\<close>

fun hit_entries :: "pyval \<Rightarrow> pydict" where
  "hit_entries (VDict d) = d"
| "hit_entries _ = []"

definition hit_metadata :: "pyval \<Rightarrow> pydict" where
  "hit_metadata item =
     (case map_of (hit_entries item) (lit ''metadata'') of Some (VDict m) \<Rightarrow> m | _ \<Rightarrow> [])"

fun well_formed_hit :: "pyval \<Rightarrow> bool" where
  "well_formed_hit (VDict d) =
     (case map_of d (lit ''metadata'') of None \<Rightarrow> True | Some (VDict m) \<Rightarrow> True | Some _ \<Rightarrow> False)"
| "well_formed_hit _ = False"

definition defaulted_chunk :: "pyval \<Rightarrow> pydict" where
  "defaulted_chunk item =
     [(lit ''id'', dict_get (hit_entries item) (lit ''id'') (VStr [])),
      (lit ''similarity'', dict_get (hit_entries item) (lit ''score'') (VFloat 0)),
      (lit ''text'', dict_get (hit_metadata item) (lit ''text'') (VStr [])),
      (lit ''document_name'', dict_get (hit_metadata item) (lit ''document_name'') (VStr [])),
      (lit ''page_number'', dict_get (hit_metadata item) (lit ''page_number'') VNone),
      (lit ''paragraph_index'', dict_get (hit_metadata item) (lit ''paragraph_index'') VNone),
      (lit ''chunk_index'', dict_get (hit_metadata item) (lit ''chunk_index'') (VInt 0))]"

section \<open>utils/chunker.py: \<open>chunk_documents\<close>\<close>

text \<open>
  \<open>chunk_text\<close> called on a value that need not be a string. The guard
  \<open>not text or not text.strip()\<close> returns \<open>[]\<close> on a falsy value; on a truthy value that is
  not a string, \<open>text.strip()\<close> raises \<open>AttributeError\<close>.
\<close>

fun chunk_text_any ::
  "pyval \<Rightarrow> int \<Rightarrow> int \<Rightarrow> pydict option \<Rightarrow> (pyexn + pydict list) option" where
  "chunk_text_any (VStr s) chunk_size chunk_overlap metadata =
     map_option Inr (chunk_text s chunk_size chunk_overlap metadata)"
| "chunk_text_any v chunk_size chunk_overlap metadata =
     (if truthy v then Some (Inl AttributeError) else Some (Inr []))"

text \<open>
  The loop \<open>for doc in documents\<close> with the list \<open>all_chunks\<close> as accumulator:
  \<open>text = doc.get("text", "")\<close>, the metadata is every entry of \<open>doc\<close> but \<open>text\<close>, and
  the chunks of the document are appended. The result is \<open>None\<close> when the chunker does not
  return on some document.
\<close>

fun chunk_documents_loop ::
  "pydict list \<Rightarrow> int \<Rightarrow> int \<Rightarrow> pydict list \<Rightarrow> (pyexn + pydict list) option" where
  "chunk_documents_loop [] chunk_size chunk_overlap all_chunks = Some (Inr all_chunks)"
| "chunk_documents_loop (doc # rest) chunk_size chunk_overlap all_chunks =
     (case chunk_text_any (dict_get doc (lit ''text'') (VStr [])) chunk_size chunk_overlap
             (Some (filter (\<lambda>(k, v). k \<noteq> lit ''text'') doc)) of
        None \<Rightarrow> None
      | Some (Inl e) \<Rightarrow> Some (Inl e)
      | Some (Inr doc_chunks) \<Rightarrow>
          chunk_documents_loop rest chunk_size chunk_overlap (all_chunks @ doc_chunks))"

definition chunk_documents ::
  "pydict list \<Rightarrow> int \<Rightarrow> int \<Rightarrow> (pyexn + pydict list) option" where
  "chunk_documents documents chunk_size chunk_overlap =
     chunk_documents_loop documents chunk_size chunk_overlap []"

section \<open>ingest.py\<close>




text \<open>
  Step 4, the body of the loop: \<open>chunk_id = f"{chunk.get('document_name', 'unknown')}_{idx}"\<close>
  (code point 95 is the underscore), the metadata dictionary with its two optional entries,
  and the record appended to \<open>vectors\<close>.
\<close>

definition chunk_id :: "(pyval \<Rightarrow> pystr) \<Rightarrow> pydict \<Rightarrow> nat \<Rightarrow> pystr" where
  "chunk_id render chunk idx =
     py_str render (dict_get chunk (lit ''document_name'') (VStr (lit ''unknown'')))
       @ [95] @ nat_str idx"

definition vector_metadata :: "pydict \<Rightarrow> pydict" where
  "vector_metadata chunk =
     (let metadata = [(lit ''document_name'', dict_get chunk (lit ''document_name'') (VStr [])),
                      (lit ''text'', dict_get chunk (lit ''text'') (VStr [])),
                      (lit ''chunk_index'', dict_get chunk (lit ''chunk_index'') (VInt 0))];
          metadata = (case map_of chunk (lit ''page_number'') of
                        None \<Rightarrow> metadata
                      | Some v \<Rightarrow> AList.update (lit ''page_number'') v metadata);
          metadata = (case map_of chunk (lit ''paragraph_index'') of
                        None \<Rightarrow> metadata
                      | Some v \<Rightarrow> AList.update (lit ''paragraph_index'') v metadata)
      in metadata)"

definition vector_record :: "(pyval \<Rightarrow> pystr) \<Rightarrow> nat \<Rightarrow> pydict \<Rightarrow> pyval \<Rightarrow> pydict" where
  "vector_record render idx chunk embedding =
     [(lit ''id'', VStr (chunk_id render chunk idx)),
      (lit ''vector'', embedding),
      (lit ''metadata'', VDict (vector_metadata chunk))]"

text \<open>
  The loop \<open>for idx, (chunk, embedding) in enumerate(zip(chunks, embeddings))\<close> with the
  list \<open>vectors\<close> as accumulator; \<open>idx\<close> counts the pairs of the whole batch.
\<close>

fun prepare_vectors ::
  "(pyval \<Rightarrow> pystr) \<Rightarrow> nat \<Rightarrow> (pydict \<times> pyval) list \<Rightarrow> pydict list \<Rightarrow> pydict list" where
  "prepare_vectors render idx [] vectors = vectors"
| "prepare_vectors render idx ((chunk, embedding) # rest) vectors =
     prepare_vectors render (Suc idx) rest (vectors @ [vector_record render idx chunk embedding])"


text \<open>
  The index that the specification describes for the id, to compare with \<open>idx\<close>: the
  position of the chunk at \<open>i\<close> among the chunks of the batch that have its
  \<open>document_name\<close>, counted from 0.
\<close>

definition spec_per_document_index :: "pydict list \<Rightarrow> nat \<Rightarrow> nat" where
  "spec_per_document_index chunks i =
     length (filter (\<lambda>c. map_of c (lit ''document_name'')
                            = map_of (chunks ! i) (lit ''document_name''))
               (take i chunks))"

text \<open>
  A rendering for concrete inputs in which no float, list or dictionary is printed.
\<close>

definition no_render :: "pyval \<Rightarrow> pystr" where
  "no_render v = []"

section \<open>The clock and the generation provider\<close>

text \<open>
  What a query reads and changes outside the program: how many times \<open>time.time()\<close> has
  been read, and the prompts sent so far to the chat-completion API. A run of the clock is a
  function \<open>time_at\<close>, the n-th read returning \<open>time_at n\<close>. Times and latencies are real
  numbers: the rounding of floating-point arithmetic is not modelled, and \<open>round(x, 2)\<close> is
  the parameter \<open>round2\<close>.
\<close>

record world =
  ticks :: nat
  chat_calls :: "pystr list"

definition time_time :: "(nat \<Rightarrow> real) \<Rightarrow> world \<Rightarrow> real \<times> world" where
  "time_time time_at w = (time_at (ticks w), w\<lparr>ticks := Suc (ticks w)\<rparr>)"

section \<open>endee\_client.py: \<open>search\<close>\<close>

text \<open>
  \<open>search\<close>. The HTTP call is the parameter \<open>post\<close> (\<open>session.post\<close> followed by
  \<open>raise_for_status\<close>: a response, or an exception) and decoding it the parameter \<open>json\<close>.
  The result is the pair of the entries \<open>results\<close> and \<open>retrieval_latency_ms\<close> of the
  returned dictionary.
\<close>

definition search ::
  "(nat \<Rightarrow> real) \<Rightarrow> (pyval \<Rightarrow> int \<Rightarrow> pyexn + 'r) \<Rightarrow> ('r \<Rightarrow> pyexn + pyval) \<Rightarrow> (real \<Rightarrow> real)
     \<Rightarrow> pyval \<Rightarrow> int \<Rightarrow> world \<Rightarrow> (pyexn + pyval \<times> real) \<times> world" where
  "search time_at post json round2 query_vector top_k w =
     (case time_time time_at w of
        (start_time, w1) \<Rightarrow>
          (case post query_vector top_k of
             Inl e \<Rightarrow> (Inl e, w1)
           | Inr response \<Rightarrow>
               (case time_time time_at w1 of
                  (t, w2) \<Rightarrow>
                    (let retrieval_latency_ms = (t - start_time) * 1000 in
                     (py_bind (json response) (\<lambda>result.
                      py_bind (py_get result (lit ''results'') (VList [])) (\<lambda>results.
                        Inr (results, round2 retrieval_latency_ms))), w2)))))"

section \<open>retriever.py: \<open>retrieve\<close>\<close>

text \<open>
  What \<open>for item in v\<close> iterates over: the elements of a list, the characters of a string,
  the keys of a dictionary; any other value raises \<open>TypeError\<close>.
\<close>

fun py_iter :: "pyval \<Rightarrow> pyexn + pyval list" where
  "py_iter (VList xs) = Inr xs"
| "py_iter (VStr s) = Inr (map (\<lambda>c. VStr [c]) s)"
| "py_iter (VDict d) = Inr (map (\<lambda>(k, v). VStr k) d)"
| "py_iter v = Inl TypeError"

text \<open>
  \<open>retrieve\<close>: the query's embedding (the parameter \<open>generate_query_embedding\<close>, the
  embeddings API), the search, and the loop over the hits. The result is the triple of the
  entries \<open>chunks\<close>, \<open>retrieval_latency_ms\<close> and \<open>query\<close> of the returned dictionary.
\<close>

definition retrieve ::
  "(nat \<Rightarrow> real) \<Rightarrow> (pystr \<Rightarrow> pyexn + pyval) \<Rightarrow> (pyval \<Rightarrow> int \<Rightarrow> pyexn + 'r)
     \<Rightarrow> ('r \<Rightarrow> pyexn + pyval) \<Rightarrow> (real \<Rightarrow> real) \<Rightarrow> pystr \<Rightarrow> int \<Rightarrow> world
     \<Rightarrow> (pyexn + pydict list \<times> real \<times> pystr) \<times> world" where
  "retrieve time_at generate_query_embedding post json round2 query top_k w =
     (case generate_query_embedding query of
        Inl e \<Rightarrow> (Inl e, w)
      | Inr query_embedding \<Rightarrow>
          (case search time_at post json round2 query_embedding top_k w of
             (Inl e, w1) \<Rightarrow> (Inl e, w1)
           | (Inr (results, retrieval_latency_ms), w1) \<Rightarrow>
               (py_bind (py_iter results) (\<lambda>items.
                py_bind (normalize_hits items []) (\<lambda>chunks.
                  Inr (chunks, retrieval_latency_ms, query))), w1)))"

section \<open>rag\_pipeline.py: \<open>generate_answer\<close>\<close>

text \<open>
  \<open>generate_answer\<close>. The chat-completion call is the parameter \<open>chat_completion\<close>, from
  the prompt to \<open>response.choices[0].message.content\<close> or an exception; each call is
  recorded in \<open>chat_calls\<close>. The result is the returned dictionary, or the exception that
  leaves the function, with the world afterwards.
\<close>

definition generate_answer ::
  "(nat \<Rightarrow> real) \<Rightarrow> (pystr \<Rightarrow> pyexn + pyval) \<Rightarrow> (pyval \<Rightarrow> int \<Rightarrow> pyexn + 'r)
     \<Rightarrow> ('r \<Rightarrow> pyexn + pyval) \<Rightarrow> (real \<Rightarrow> real) \<Rightarrow> (pystr \<Rightarrow> pyexn + pyval)
     \<Rightarrow> (pyval \<Rightarrow> pystr) \<Rightarrow> pystr \<Rightarrow> int \<Rightarrow> world \<Rightarrow> (pyexn + pydict) \<times> world" where
  "generate_answer time_at generate_query_embedding post json round2 chat_completion render
       query top_k w =
     (case time_time time_at w of
        (total_start, w1) \<Rightarrow>
          (case retrieve time_at generate_query_embedding post json round2 query top_k w1 of
             (Inl e, w2) \<Rightarrow> (Inl e, w2)
           | (Inr (chunks, retrieval_latency, q), w2) \<Rightarrow>
               if chunks = []
               then
                 (case time_time time_at w2 of
                    (t, w3) \<Rightarrow>
                      (Inr [(lit ''answer'',
                             VStr (lit ''I couldn'' @ [39]
                                   @ lit ''t find any relevant information to answer your question.'')),
                            (lit ''chunks'', VList []),
                            (lit ''retrieval_latency_ms'', VFloat retrieval_latency),
                            (lit ''generation_latency_ms'', VInt 0),
                            (lit ''total_latency_ms'', VFloat ((t - total_start) * 1000))],
                       w3))
               else
                 (case construct_prompt render query chunks of
                    Inl e \<Rightarrow> (Inl e, w2)
                  | Inr prompt \<Rightarrow>
                      (case time_time time_at w2 of
                         (gen_start, w3) \<Rightarrow>
                           (let w4 = w3\<lparr>chat_calls := chat_calls w3 @ [prompt]\<rparr> in
                            (case chat_completion prompt of
                               Inl e \<Rightarrow> (Inl e, w4)
                             | Inr answer \<Rightarrow>
                                 (case time_time time_at w4 of
                                    (t1, w5) \<Rightarrow>
                                      (case time_time time_at w5 of
                                         (t2, w6) \<Rightarrow>
                                           (let generation_latency = (t1 - gen_start) * 1000;
                                                total_latency = (t2 - total_start) * 1000
                                            in
                                            (Inr [(lit ''answer'', answer),
                                                  (lit ''chunks'', VList (map VDict chunks)),
                                                  (lit ''retrieval_latency_ms'',
                                                   VFloat (round2 retrieval_latency)),
                                                  (lit ''generation_latency_ms'',
                                                   VFloat (round2 generation_latency)),
                                                  (lit ''total_latency_ms'',
                                                   VFloat (round2 total_latency))],
                                             w6))))))))))"

section \<open>Evaluation on concrete inputs\<close>

lemmas chunker_eval =
  chunk_text_def chunk_text_run_def chunk_loop.simps strip_def py_slice_def slice_index_def
  py_isspace_def chunk_data_def dict_merge_def or_empty_def Let_def lit_def chunk_text_of_def
  chunk_index_of_def

section \<open>The chunker's loop\<close>

lemma map_of_dict_merge_other:
  "k \<notin> fst ` set m \<Longrightarrow> map_of (dict_merge d m) k = map_of d k"
  unfolding dict_merge_def
  by (induction m arbitrary: d) (auto simp: update_conv')

lemma chunk_index_of_chunk_data:
  "lit ''chunk_index'' \<notin> fst ` set metadata \<Longrightarrow>
     chunk_index_of (chunk_data chunk i metadata) = Some (VInt i)"
  by (simp add: chunk_index_of_def chunk_data_def map_of_dict_merge_other lit_def)

lemma chunk_text_of_chunk_data:
  "lit ''text'' \<notin> fst ` set metadata \<Longrightarrow>
     chunk_text_of (chunk_data chunk i metadata) = Some (VStr chunk)"
  by (simp add: chunk_text_of_def chunk_data_def map_of_dict_merge_other lit_def)

lemma cursors_eq: "cursors m start step = map (\<lambda>k. start + int k * step) [0..<m]"
proof (induction m arbitrary: start)
  case 0
  then show ?case by simp
next
  case (Suc m)
  have "[0..<Suc m] = 0 # map Suc [0..<m]"
    by (simp add: upt_conv_Cons map_Suc_upt del: upt_Suc)
  then show ?case
    by (simp add: Suc.IH algebra_simps del: upt_Suc)
qed

lemma length_emit:
  "length (emit text cs md ss i) = length (filter (\<lambda>s. window text cs s \<noteq> []) ss)"
  by (induction ss arbitrary: i) auto

lemma emit_indices:
  assumes "lit ''chunk_index'' \<notin> fst ` set md"
  shows "map chunk_index_of (emit text cs md ss i)
         = map (\<lambda>k. Some (VInt (i + int k))) [0..<length (emit text cs md ss i)]"
proof (induction ss arbitrary: i)
  case Nil
  then show ?case by simp
next
  case (Cons s ss)
  show ?case
  proof (cases "window text cs s = []")
    case True
    then show ?thesis using Cons.IH by simp
  next
    case False
    let ?n = "length (emit text cs md ss (i + 1))"
    have "[0..<Suc ?n] = 0 # map Suc [0..<?n]"
      by (simp add: upt_conv_Cons map_Suc_upt del: upt_Suc)
    then show ?thesis
      using False Cons.IH [of "i + 1"] assms
      by (simp add: chunk_index_of_chunk_data algebra_simps del: upt_Suc)
  qed
qed

lemma emit_texts:
  assumes "lit ''text'' \<notin> fst ` set md"
  shows "map chunk_text_of (emit text cs md ss i)
         = map (\<lambda>s. Some (VStr (window text cs s))) (filter (\<lambda>s. window text cs s \<noteq> []) ss)"
  using assms by (induction ss arbitrary: i) (auto simp: chunk_text_of_chunk_data)

lemma strip_eq_Nil: "strip s = [] \<longleftrightarrow> (\<forall>c \<in> set s. py_isspace c)"
proof
  assume "strip s = []"
  then have all: "\<forall>x \<in> set (dropWhile py_isspace s). py_isspace x"
    by (simp add: strip_def)
  have "dropWhile py_isspace s = []"
  proof (rule ccontr)
    assume ne: "dropWhile py_isspace s \<noteq> []"
    then have "\<not> py_isspace (hd (dropWhile py_isspace s))" by (rule hd_dropWhile)
    moreover have "hd (dropWhile py_isspace s) \<in> set (dropWhile py_isspace s)"
      using ne by simp
    ultimately show False using all by blast
  qed
  then show "\<forall>c \<in> set s. py_isspace c" by simp
next
  assume "\<forall>c \<in> set s. py_isspace c"
  then show "strip s = []" by (auto simp: strip_def dest: set_dropWhileD)
qed

lemma set_py_slice: "set (py_slice xs i j) \<subseteq> set xs"
  unfolding py_slice_def Let_def
  by (meson set_take_subset set_drop_subset subset_trans)

lemma window_blank: "strip text = [] \<Longrightarrow> window text cs s = []"
  unfolding window_def strip_eq_Nil using set_py_slice by fastforce

lemma emit_blank: "strip text = [] \<Longrightarrow> emit text cs md ss i = []"
  by (induction ss arbitrary: i) (simp_all add: window_blank)

lemma windows_left_ceiling:
  assumes "0 < step"
  shows "int (windows_left n step 0) = \<lceil>real n / real_of_int step\<rceil>"
proof -
  have "\<lceil>real_of_int (int n) / real_of_int step\<rceil> = - ((- int n) div step)"
    by (rule ceiling_divide_eq_div)
  moreover have "0 \<le> - ((- int n) div step)"
    using assms div_nonpos_pos_le0 [of "- int n" step] by simp
  ultimately show ?thesis by (simp add: windows_left_def)
qed

lemma windows_left_pos:
  assumes "0 < step" "start < int n"
  shows "0 < windows_left n step start"
proof -
  have "(start - int n) div step < 0"
    using assms by (simp add: div_neg_pos_less0)
  then show ?thesis by (simp add: windows_left_def)
qed

lemma windows_left_last:
  assumes "0 < step" "start < int n" "int n \<le> start + step"
  shows "windows_left n step start = 1"
proof -
  have "(start - int n) div step = - 1"
  proof (rule int_div_pos_eq)
    show "start - int n = step * (- 1) + (start - int n + step)" by simp
    show "0 \<le> start - int n + step" using assms by simp
    show "start - int n + step < step" using assms by simp
  qed
  then show ?thesis by (simp add: windows_left_def)
qed

lemma windows_left_step:
  assumes "0 < step" "start + step < int n"
  shows "windows_left n step start = Suc (windows_left n step (start + step))"
proof -
  have "(start - int n + step) div step = (start - int n) div step + 1"
    using assms by simp
  moreover have "start - int n + step = start + step - int n" by simp
  ultimately have e: "(start + step - int n) div step = (start - int n) div step + 1"
    by simp
  have "(start + step - int n) div step < 0"
    using assms by (simp add: div_neg_pos_less0)
  then show ?thesis using e by (simp add: windows_left_def)
qed

text \<open>
  With a positive step the loop returns: from cursor \<open>start\<close> it runs exactly
  \<open>windows_left\<close> more iterations and appends what \<open>emit\<close> lists.
\<close>

lemma chunk_loop_runs:
  assumes "0 < chunk_size - chunk_overlap"
  shows "start < int (length text) \<Longrightarrow>
    m = windows_left (length text) (chunk_size - chunk_overlap) start \<Longrightarrow>
    chunk_loop text chunk_size chunk_overlap metadata start chunk_index chunks iters
      = Some (chunks @ emit text chunk_size metadata
                (cursors m start (chunk_size - chunk_overlap)) chunk_index, iters + m)"
proof (induction m arbitrary: start chunk_index chunks iters)
  case 0
  then show ?case using windows_left_pos [OF assms, of start "length text"] by simp
next
  case (Suc m)
  let ?step = "chunk_size - chunk_overlap"
  show ?case
  proof (cases "int (length text) \<le> start + ?step")
    case True
    then have "windows_left (length text) ?step start = 1"
      using windows_left_last [OF assms Suc.prems(1)] by simp
    then have m0: "m = 0" using Suc.prems(2) by simp
    show ?thesis
      using True Suc.prems(1) m0
      by (subst chunk_loop.simps) (simp add: Let_def window_def algebra_simps)
  next
    case False
    then have lt: "start + ?step < int (length text)" by simp
    have "m = windows_left (length text) ?step (start + ?step)"
      using windows_left_step [OF assms lt] Suc.prems(2) by simp
    note ih = Suc.IH [OF lt this]
    have s: "start + chunk_size - chunk_overlap = start + ?step" by simp
    show ?thesis
      using False Suc.prems(1)
      by (subst chunk_loop.simps) (simp add: Let_def window_def ih s)
  qed
qed

text \<open>
  What \<open>chunk_text\<close> returns whenever the cursor advances (\<open>chunk_overlap < chunk_size\<close>):
  the chunks of the windows at the cursor positions \<open>0, step, 2 step, \<dots>\<close> below the length
  of the text, after as many iterations as there are such positions (none when the text is
  blank).
\<close>

lemma chunk_text_run_eq:
  assumes "0 < chunk_size - chunk_overlap"
  shows "chunk_text_run text chunk_size chunk_overlap metadata =
     Some (emit text chunk_size (or_empty metadata)
             (cursors (windows_left (length text) (chunk_size - chunk_overlap) 0) 0
                (chunk_size - chunk_overlap)) 0,
           if strip text = [] then 0
           else windows_left (length text) (chunk_size - chunk_overlap) 0)"
proof (cases "strip text = []")
  case True
  then show ?thesis by (simp add: chunk_text_run_def emit_blank)
next
  case False
  then have "text \<noteq> []" by (auto simp: strip_def)
  then have "0 < int (length text)" by simp
  from chunk_loop_runs [OF assms this refl, of "or_empty metadata" 0 "[]" 0]
  show ?thesis using False \<open>text \<noteq> []\<close> by (simp add: chunk_text_run_def)
qed

section \<open>Termination of the chunker\<close>

text \<open>
  C2: for every text and every \<open>0 \<le> chunk_overlap < chunk_size\<close>, \<open>chunk_text\<close> returns, and
  the number of loop iterations it performed is at most
  \<open>ceil(len(text) / (chunk_size - chunk_overlap))\<close>.
\<close>

theorem chunk_text_terminates:
  assumes "0 \<le> chunk_overlap" and "chunk_overlap < chunk_size"
  shows "\<exists>chunks iters.
           chunk_text_run text chunk_size chunk_overlap metadata = Some (chunks, iters)
         \<and> chunk_text text chunk_size chunk_overlap metadata = Some chunks
         \<and> int iters \<le> \<lceil>real (length text) / real_of_int (chunk_size - chunk_overlap)\<rceil>"
proof -
  have step: "0 < chunk_size - chunk_overlap" using assms by simp
  have "0 \<le> \<lceil>real (length text) / real_of_int (chunk_size - chunk_overlap)\<rceil>"
    using windows_left_ceiling [OF step, of "length text"] by linarith
  then show ?thesis
    using chunk_text_run_eq [OF step, of "text" metadata] windows_left_ceiling [OF step, of "length text"]
    by (auto simp: chunk_text_def)
qed

text \<open>The theorem at the spec's own example, window 10 and overlap 9.\<close>

theorem chunk_text_terminates_witness:
  "(0::int) \<le> 9 \<and> (9::int) < 10
   \<and> (\<exists>chunks iters.
         chunk_text_run (lit ''retrieval augmented'') 10 9 None = Some (chunks, iters)
       \<and> chunk_text (lit ''retrieval augmented'') 10 9 None = Some chunks
       \<and> int iters \<le> \<lceil>real (length (lit ''retrieval augmented'')) / real_of_int (10 - 9)\<rceil>)"
  using chunk_text_terminates [of 9 10 "lit ''retrieval augmented''" None] by simp

section \<open>Chunk indices\<close>

text \<open>
  C8: for every text and every \<open>0 \<le> chunk_overlap < chunk_size\<close>, the \<open>chunk_index\<close> values
  of the returned chunks are \<open>0, 1, 2, \<dots>\<close> in emission order, and there are exactly as many
  chunks as there are cursor positions whose trimmed window is non-empty: an empty window is
  passed over (the cursor still advances to the next position) without using up an index.
  The metadata is the caller's; it must not itself carry a \<open>chunk_index\<close> entry, which
  \<open>**metadata\<close> would write over the one the chunker sets.
\<close>

theorem chunk_index_contiguous:
  assumes "0 \<le> chunk_overlap" and "chunk_overlap < chunk_size"
    and "lit ''chunk_index'' \<notin> fst ` set (or_empty metadata)"
  shows "\<exists>chunks.
           chunk_text text chunk_size chunk_overlap metadata = Some chunks
         \<and> map chunk_index_of chunks = map (\<lambda>i. Some (VInt (int i))) [0..<length chunks]
         \<and> length chunks =
             length (filter (\<lambda>k. window text chunk_size (int k * (chunk_size - chunk_overlap)) \<noteq> [])
               [0..<nat \<lceil>real (length text) / real_of_int (chunk_size - chunk_overlap)\<rceil>])"
proof -
  let ?step = "chunk_size - chunk_overlap"
  let ?m = "windows_left (length text) ?step 0"
  let ?chunks = "emit text chunk_size (or_empty metadata) (cursors ?m 0 ?step) 0"
  have step: "0 < ?step" using assms by simp
  have run: "chunk_text text chunk_size chunk_overlap metadata = Some ?chunks"
    using chunk_text_run_eq [OF step, of "text" metadata] by (simp add: chunk_text_def)
  have idx: "map chunk_index_of ?chunks = map (\<lambda>i. Some (VInt (int i))) [0..<length ?chunks]"
    using emit_indices [OF assms(3), of "text" chunk_size "cursors ?m 0 ?step" 0] by simp
  have m: "?m = nat \<lceil>real (length text) / real_of_int ?step\<rceil>"
    using windows_left_ceiling [OF step, of "length text"] by linarith
  have len: "length ?chunks =
      length (filter (\<lambda>k. window text chunk_size (int k * ?step) \<noteq> []) [0..<?m])"
    by (simp add: length_emit cursors_eq filter_map comp_def)
  show ?thesis using run idx len m by simp
qed

text \<open>
  The theorem on a text whose second window \<open>[3,6)\<close> is blank: three chunks, numbered
  0, 1, 2, from the windows at 0, 6 and 9.
\<close>

theorem chunk_index_contiguous_witness:
  "(0::int) \<le> 0 \<and> (0::int) < 3
   \<and> lit ''chunk_index'' \<notin> fst ` set (or_empty (Some [(lit ''document_name'', VStr (lit ''a.pdf''))]))
   \<and> (\<exists>chunks.
         chunk_text (lit ''ab      cd'') 3 0 (Some [(lit ''document_name'', VStr (lit ''a.pdf''))])
           = Some chunks
       \<and> map chunk_index_of chunks = map (\<lambda>i. Some (VInt (int i))) [0..<length chunks]
       \<and> length chunks =
           length (filter (\<lambda>k. window (lit ''ab      cd'') 3 (int k * (3 - 0)) \<noteq> [])
             [0..<nat \<lceil>real (length (lit ''ab      cd'')) / real_of_int (3 - 0)\<rceil>]))"
  using chunk_index_contiguous
    [of 0 3 "Some [(lit ''document_name'', VStr (lit ''a.pdf''))]" "lit ''ab      cd''"]
  by (simp add: or_empty_def lit_def)

section \<open>Emitted chunks and their windows\<close>

lemma length_strip: "length (strip s) \<le> length s"
proof -
  have "length (dropWhile py_isspace (rev (dropWhile py_isspace s)))
          \<le> length (rev (dropWhile py_isspace s))"
    by (rule length_dropWhile_le)
  also have "\<dots> \<le> length s" by (simp add: length_dropWhile_le)
  finally show ?thesis by (simp add: strip_def)
qed

lemma slice_index_advance:
  assumes "0 < n"
  shows "slice_index L (i + n) \<le> slice_index L i + nat n"
proof (cases "i < 0")
  case True
  show ?thesis
  proof (cases "i + n < 0")
    case True
    with \<open>i < 0\<close> assms show ?thesis by (auto simp: slice_index_def)
  next
    case False
    with \<open>i < 0\<close> assms show ?thesis by (auto simp: slice_index_def)
  qed
next
  case False
  with assms show ?thesis by (auto simp: slice_index_def)
qed

lemma length_py_slice:
  assumes "0 < n"
  shows "length (py_slice xs i (i + n)) \<le> nat n"
proof -
  have "length (py_slice xs i (i + n))
          \<le> slice_index (length xs) (i + n) - slice_index (length xs) i"
    by (simp add: py_slice_def Let_def)
  also have "\<dots> \<le> nat n"
    using slice_index_advance [OF assms, of "length xs" i] by linarith
  finally show ?thesis .
qed

lemma length_window:
  "0 < chunk_size \<Longrightarrow> length (window text chunk_size start) \<le> nat chunk_size"
  unfolding window_def
  using length_strip [of "py_slice text start (start + chunk_size)"]
    length_py_slice [of chunk_size "text" start] by linarith

text \<open>
  The invariant holds of whatever the loop returns; the proof is by induction on the least
  fixed point that defines the loop, so it needs no assumption on the overlap.
\<close>

lemma from_windows_snoc:
  assumes "from_windows text chunk_size chunks" and "start < int (length text)"
    and "window text chunk_size start \<noteq> []" and "lit ''text'' \<notin> fst ` set metadata"
  shows "from_windows text chunk_size
           (chunks @ [chunk_data (window text chunk_size start) chunk_index metadata])"
proof -
  have "\<exists>s. s < int (length text) \<and> window text chunk_size s \<noteq> []
        \<and> chunk_text_of (chunk_data (window text chunk_size start) chunk_index metadata)
            = Some (VStr (window text chunk_size s))"
    using assms(2,3,4) by (intro exI [of _ start]) (simp add: chunk_text_of_chunk_data)
  then show ?thesis using assms(1) by (simp add: from_windows_def)
qed

lemma chunk_loop_invariant:
  assumes run: "chunk_loop text chunk_size chunk_overlap metadata start chunk_index chunks iters = Some y"
    and key: "lit ''text'' \<notin> fst ` set metadata"
    and inv: "from_windows text chunk_size chunks"
  shows "from_windows text chunk_size (fst y)"
proof -
  have "lit ''text'' \<notin> fst ` set metadata \<longrightarrow> from_windows text chunk_size chunks
          \<longrightarrow> from_windows text chunk_size (fst y)"
  proof (rule chunk_loop.raw_induct
      [where P = "\<lambda>text chunk_size chunk_overlap metadata start chunk_index chunks iters y.
         lit ''text'' \<notin> fst ` set metadata \<longrightarrow> from_windows text chunk_size chunks
           \<longrightarrow> from_windows text chunk_size (fst y)", OF _ run])
    fix f :: "pystr \<Rightarrow> int \<Rightarrow> int \<Rightarrow> pydict \<Rightarrow> int \<Rightarrow> int \<Rightarrow> pydict list \<Rightarrow> nat \<Rightarrow> (pydict list \<times> nat) option"
      and t cs co md st ci chs it r
    assume IH: "\<And>t cs co md st ci chs it r. f t cs co md st ci chs it = Some r \<Longrightarrow>
        lit ''text'' \<notin> fst ` set md \<longrightarrow> from_windows t cs chs \<longrightarrow> from_windows t cs (fst r)"
    assume body: "(if st < int (length t)
      then let end = st + cs;
               chunk = strip (py_slice t st end);
               chunks' = if chunk \<noteq> [] then chs @ [chunk_data chunk ci md] else chs;
               chunk_index' = if chunk \<noteq> [] then ci + 1 else ci;
               start' = end - co
           in if int (length t) \<le> start' then Some (chunks', Suc it)
              else f t cs co md start' chunk_index' chunks' (Suc it)
      else Some (chs, it)) = Some r"
    show "lit ''text'' \<notin> fst ` set md \<longrightarrow> from_windows t cs chs \<longrightarrow> from_windows t cs (fst r)"
    proof (intro impI)
      assume k: "lit ''text'' \<notin> fst ` set md" and i: "from_windows t cs chs"
      show "from_windows t cs (fst r)"
      proof (cases "st < int (length t)")
        case False
        then have "r = (chs, it)" using body by simp
        then show ?thesis using i by simp
      next
        case True
        define chs' where
          "chs' = (if window t cs st \<noteq> [] then chs @ [chunk_data (window t cs st) ci md] else chs)"
        have i': "from_windows t cs chs'"
          using i from_windows_snoc [OF i True _ k] by (simp add: chs'_def)
        have body': "(if int (length t) \<le> st + cs - co then Some (chs', Suc it)
              else f t cs co md (st + cs - co) (if window t cs st \<noteq> [] then ci + 1 else ci)
                     chs' (Suc it)) = Some r"
          using body True by (simp only: Let_def window_def chs'_def if_True)
        show ?thesis
        proof (cases "int (length t) \<le> st + cs - co")
          case True
          then have "r = (chs', Suc it)" using body' by simp
          then show ?thesis using i' by simp
        next
          case False
          then have "f t cs co md (st + cs - co) (if window t cs st \<noteq> [] then ci + 1 else ci)
                     chs' (Suc it) = Some r"
            using body' by simp
          from IH [OF this] k i' show ?thesis by simp
        qed
      qed
    qed
  qed
  then show ?thesis using key inv by simp
qed

text \<open>
  C10: for every text and every \<open>chunk_size > 0\<close>, each chunk that \<open>chunk_text\<close> returns
  has as its text the whitespace-trimmed slice \<open>text[start : start + chunk_size]\<close> of a
  cursor position \<open>start\<close> before the end of the text; that text is non-empty and has at
  most \<open>chunk_size\<close> characters. The overlap is arbitrary (a call that never returns
  returns no chunk). The metadata is the caller's; it must not itself carry a \<open>text\<close>
  entry, which \<open>**metadata\<close> would write over the one the chunker sets.
\<close>

theorem chunk_text_chunks_within_window:
  assumes "0 < chunk_size"
    and "lit ''text'' \<notin> fst ` set (or_empty metadata)"
    and "chunk_text text chunk_size chunk_overlap metadata = Some chunks"
    and "c \<in> set chunks"
  shows "\<exists>start. start < int (length text)
           \<and> chunk_text_of c = Some (VStr (strip (py_slice text start (start + chunk_size))))
           \<and> strip (py_slice text start (start + chunk_size)) \<noteq> []
           \<and> length (strip (py_slice text start (start + chunk_size))) \<le> nat chunk_size"
proof -
  obtain iters where run: "chunk_text_run text chunk_size chunk_overlap metadata = Some (chunks, iters)"
    using assms(3) by (auto simp: chunk_text_def)
  have nonblank: "\<not> (text = [] \<or> strip text = [])"
  proof
    assume "text = [] \<or> strip text = []"
    then have "chunks = []" using run by (simp add: chunk_text_run_def)
    then show False using assms(4) by simp
  qed
  then have "chunk_loop text chunk_size chunk_overlap (or_empty metadata) 0 0 [] 0
               = Some (chunks, iters)"
    using run by (simp add: chunk_text_run_def)
  from chunk_loop_invariant [OF this assms(2)]
  have "from_windows text chunk_size chunks" by (simp add: from_windows_def)
  then obtain s where s: "s < int (length text)" "window text chunk_size s \<noteq> []"
      "chunk_text_of c = Some (VStr (window text chunk_size s))"
    using assms(4) unfolding from_windows_def by blast
  have "length (window text chunk_size s) \<le> nat chunk_size"
    using assms(1) by (rule length_window)
  then show ?thesis using s unfolding window_def by blast
qed

text \<open>The theorem at the second chunk of a text whose window \<open>[3,6)\<close> is blank.\<close>

theorem chunk_text_chunks_within_window_witness:
  "(0::int) < 3
   \<and> lit ''text'' \<notin> fst ` set (or_empty None)
   \<and> chunk_text (lit ''ab      cd'') 3 0 None
       = Some [[(lit ''text'', VStr (lit ''ab'')), (lit ''chunk_index'', VInt 0)],
               [(lit ''text'', VStr (lit ''c'')), (lit ''chunk_index'', VInt 1)],
               [(lit ''text'', VStr (lit ''d'')), (lit ''chunk_index'', VInt 2)]]
   \<and> (\<exists>start. start < int (length (lit ''ab      cd''))
         \<and> chunk_text_of [(lit ''text'', VStr (lit ''c'')), (lit ''chunk_index'', VInt 1)]
             = Some (VStr (strip (py_slice (lit ''ab      cd'') start (start + 3))))
         \<and> strip (py_slice (lit ''ab      cd'') start (start + 3)) \<noteq> []
         \<and> length (strip (py_slice (lit ''ab      cd'') start (start + 3))) \<le> nat 3)"
proof -
  have h1: "(0::int) < 3" by simp
  have h2: "lit ''text'' \<notin> fst ` set (or_empty None)" by (simp add: or_empty_def)
  have h3: "chunk_text (lit ''ab      cd'') 3 0 None
       = Some [[(lit ''text'', VStr (lit ''ab'')), (lit ''chunk_index'', VInt 0)],
               [(lit ''text'', VStr (lit ''c'')), (lit ''chunk_index'', VInt 1)],
               [(lit ''text'', VStr (lit ''d'')), (lit ''chunk_index'', VInt 2)]]"
    by (simp add: chunker_eval)
  have h4: "[(lit ''text'', VStr (lit ''c'')), (lit ''chunk_index'', VInt 1)]
      \<in> set [[(lit ''text'', VStr (lit ''ab'')), (lit ''chunk_index'', VInt 0)],
               [(lit ''text'', VStr (lit ''c'')), (lit ''chunk_index'', VInt 1)],
               [(lit ''text'', VStr (lit ''d'')), (lit ''chunk_index'', VInt 2)]]"
    by simp
  from chunk_text_chunks_within_window [OF h1 h2 h3 h4] h1 h2 h3 show ?thesis by blast
qed

section \<open>The end-to-end example of the chunker\<close>

text \<open>
  C3 (as the claim states it, refuted): on the 32-character text
  \<open>AAAAAAAAAA BBBBBBBBBB CCCCCCCCCC\<close> with window 15 and overlap 5 the claim expects exactly
  three chunks. The code emits four: after the window [20,32) the cursor is at 30, which is
  still before the end of the text, so the window [30,32) is read as well.
\<close>

theorem chunk_text_example_not_three:
  "map_option length (chunk_text (lit ''AAAAAAAAAA BBBBBBBBBB CCCCCCCCCC'') 15 5 None) \<noteq> Some 3"
  by (simp add: chunker_eval)

text \<open>
  C3 (amended): on that input \<open>chunk_text\<close> returns exactly four chunks, the trimmed
  windows [0,15), [10,25), [20,32) and [30,32), with \<open>chunk_index\<close> 0, 1, 2, 3.
\<close>

theorem chunk_text_example_four:
  "map_option (map (\<lambda>c. (chunk_text_of c, chunk_index_of c)))
     (chunk_text (lit ''AAAAAAAAAA BBBBBBBBBB CCCCCCCCCC'') 15 5 None)
   = Some [(Some (VStr (lit ''AAAAAAAAAA BBBB'')), Some (VInt 0)),
           (Some (VStr (lit ''BBBBBBBBBB CCC'')), Some (VInt 1)),
           (Some (VStr (lit ''B CCCCCCCCCC'')), Some (VInt 2)),
           (Some (VStr (lit ''CC'')), Some (VInt 3))]"
  by (simp add: chunker_eval)

section \<open>Citation precedence\<close>

text \<open>
  C4: the citation is \<open>[document_name - location]\<close> (with an en dash), and the location is
  resolved by precedence, first match wins: a \<open>page_number\<close> that is present and truthy gives
  \<open>page n\<close>; otherwise a \<open>paragraph_index\<close> that is present and truthy gives \<open>para n\<close>;
  otherwise the location is \<open>chunk\<close> followed by the chunk's \<open>chunk_index\<close> (0 when the chunk
  has none).
\<close>

theorem format_citation_precedence:
  "format_citation render chunk
     = lit ''['' @ py_str render (dict_get chunk (lit ''document_name'') (VStr (lit ''Unknown'')))
         @ [32, 8211, 32] @ location render chunk @ lit '']''
   \<and> (\<forall>p. map_of chunk (lit ''page_number'') = Some p \<longrightarrow> truthy p \<longrightarrow>
          location render chunk = lit ''page '' @ py_str render p)
   \<and> (\<forall>q. \<not> (\<exists>p. map_of chunk (lit ''page_number'') = Some p \<and> truthy p) \<longrightarrow>
          map_of chunk (lit ''paragraph_index'') = Some q \<longrightarrow> truthy q \<longrightarrow>
          location render chunk = lit ''para '' @ py_str render q)
   \<and> (\<not> (\<exists>p. map_of chunk (lit ''page_number'') = Some p \<and> truthy p) \<longrightarrow>
      \<not> (\<exists>q. map_of chunk (lit ''paragraph_index'') = Some q \<and> truthy q) \<longrightarrow>
          location render chunk
            = lit ''chunk '' @ py_str render (dict_get chunk (lit ''chunk_index'') (VInt 0)))"
  by (auto simp: format_citation_def location_def dict_get_def split: option.splits)

text \<open>
  The theorem at a chunk with page 3 and paragraph 7 (renders \<open>page 3\<close>), at one whose page
  is \<open>None\<close> (renders \<open>para 7\<close>), and at one with neither (renders \<open>chunk 4\<close>).
\<close>

theorem format_citation_precedence_witness:
  "format_citation (\<lambda>v. [])
     [(lit ''document_name'', VStr (lit ''a.pdf'')), (lit ''page_number'', VInt 3),
      (lit ''paragraph_index'', VInt 7), (lit ''chunk_index'', VInt 4)]
     = lit ''[a.pdf '' @ [8211] @ lit '' page 3]''
   \<and> format_citation (\<lambda>v. [])
     [(lit ''document_name'', VStr (lit ''b.docx'')), (lit ''page_number'', VNone),
      (lit ''paragraph_index'', VInt 7), (lit ''chunk_index'', VInt 4)]
     = lit ''[b.docx '' @ [8211] @ lit '' para 7]''
   \<and> format_citation (\<lambda>v. [])
     [(lit ''document_name'', VStr (lit ''c.txt'')), (lit ''chunk_index'', VInt 4)]
     = lit ''[c.txt '' @ [8211] @ lit '' chunk 4]''"
  using
    format_citation_precedence [of "\<lambda>v. []"
      "[(lit ''document_name'', VStr (lit ''a.pdf'')), (lit ''page_number'', VInt 3),
        (lit ''paragraph_index'', VInt 7), (lit ''chunk_index'', VInt 4)]"]
    format_citation_precedence [of "\<lambda>v. []"
      "[(lit ''document_name'', VStr (lit ''b.docx'')), (lit ''page_number'', VNone),
        (lit ''paragraph_index'', VInt 7), (lit ''chunk_index'', VInt 4)]"]
    format_citation_precedence [of "\<lambda>v. []"
      "[(lit ''document_name'', VStr (lit ''c.txt'')), (lit ''chunk_index'', VInt 4)]"]
  by (simp add: lit_def dict_get_def int_str_def nat_str.simps)

section \<open>The normaliser and the prompt's context\<close>

lemma py_bind_Inr: "py_bind r f = Inr y \<longleftrightarrow> (\<exists>v. r = Inr v \<and> f v = Inr y)"
  by (cases r) (simp_all add: py_bind_def)

lemma normalize_hits_acc:
  "normalize_hits hits acc = Inr chunks
     \<longleftrightarrow> (\<exists>cs. map normalize_hit hits = map Inr cs \<and> chunks = acc @ cs)"
proof (induction hits arbitrary: acc)
  case Nil
  then show ?case by auto
next
  case (Cons h hits)
  show ?case
  proof (cases "normalize_hit h")
    case (Inl e)
    then show ?thesis by (auto simp: py_bind_def map_eq_Cons_conv)
  next
    case (Inr c)
    have "normalize_hits (h # hits) acc = Inr chunks
            \<longleftrightarrow> (\<exists>cs. map normalize_hit hits = map Inr cs \<and> chunks = (acc @ [c]) @ cs)"
      using Inr Cons.IH [of "acc @ [c]"] by (simp add: py_bind_def)
    also have "\<dots> \<longleftrightarrow> (\<exists>cs. map normalize_hit (h # hits) = map Inr cs \<and> chunks = acc @ cs)"
      using Inr by (auto simp: map_eq_Cons_conv Cons_eq_map_conv)
    finally show ?thesis .
  qed
qed

lemma normalize_hit_has_text:
  "normalize_hit h = Inr c \<Longrightarrow> map_of c (lit ''text'') \<noteq> None"
  by (auto simp: normalize_hit_def py_bind_Inr lit_def)

lemma upt_Suc_shift: "[0..<Suc n] = 0 # map Suc [0..<n]"
  by (simp add: upt_conv_Cons map_Suc_upt del: upt_Suc)

lemma context_parts_acc:
  assumes "\<forall>c \<in> set chunks. map_of c (lit ''text'') \<noteq> None"
  shows "context_parts render idx chunks acc
     = Inr (acc @ map (\<lambda>i. context_block render (idx + i) (chunks ! i)
                            (dict_get (chunks ! i) (lit ''text'') VNone))
                    [0..<length chunks])"
  using assms
proof (induction chunks arbitrary: idx acc)
  case Nil
  then show ?case by simp
next
  case (Cons c chunks)
  then obtain t where t: "map_of c (lit ''text'') = Some t" by auto
  have rest: "\<forall>c \<in> set chunks. map_of c (lit ''text'') \<noteq> None" using Cons.prems by simp
  show ?case
    using t Cons.IH [OF rest, of "Suc idx" "acc @ [context_block render idx c t]"]
    by (simp add: upt_Suc_shift dict_get_def comp_def del: upt_Suc)
qed


lemma normalize_hit_well_formed:
  assumes "well_formed_hit h"
  shows "normalize_hit h = Inr (defaulted_chunk h)"
proof (cases h)
  case (VDict d)
  show ?thesis
  proof (cases "map_of d (lit ''metadata'')")
    case None
    then show ?thesis
      using VDict
      by (simp add: normalize_hit_def py_bind_def py_get_def defaulted_chunk_def
          hit_metadata_def dict_get_def)
  next
    case (Some m)
    then obtain md where "m = VDict md"
      using assms VDict by (cases m) simp_all
    then show ?thesis
      using VDict Some
      by (simp add: normalize_hit_def py_bind_def py_get_def defaulted_chunk_def
          hit_metadata_def dict_get_def)
  qed
qed (use assms in simp_all)

lemma normalize_hits_well_formed:
  assumes "\<forall>h \<in> set hits. well_formed_hit h"
  shows "normalize_hits hits acc = Inr (acc @ map defaulted_chunk hits)"
  using assms
  by (induction hits arbitrary: acc) (simp_all add: normalize_hit_well_formed py_bind_def)

lemma construct_prompt_of_normalized:
  assumes "map normalize_hit hits = map Inr chunks"
  shows "construct_prompt render query chunks
           = Inr (prompt_head
                  @ py_join [10]
                      (map (\<lambda>i. context_block render (Suc i) (chunks ! i)
                                   (dict_get (chunks ! i) (lit ''text'') VNone))
                           [0..<length chunks])
                  @ prompt_instructions @ query @ prompt_tail)"
proof -
  have "\<forall>c \<in> set chunks. map_of c (lit ''text'') \<noteq> None"
  proof
    fix c assume "c \<in> set chunks"
    then have "Inr c \<in> set (map normalize_hit hits)" using assms by simp
    then obtain h where "normalize_hit h = Inr c" by auto
    then show "map_of c (lit ''text'') \<noteq> None" by (rule normalize_hit_has_text)
  qed
  from context_parts_acc [OF this, of render 1 "[]"]
  show ?thesis by (simp add: construct_prompt_def py_bind_def)
qed

section \<open>Order of hits, chunks and context blocks\<close>

text \<open>
  \<open>"\n".join(context_parts)\<close> written out: every block but the first is preceded by one
  newline. As each block ends with a newline, consecutive blocks are separated by a blank
  line.
\<close>

lemma concat_map_nth:
  "concat (map f ps) = concat (map (\<lambda>i. f (ps ! i)) [0..<length ps])"
proof -
  have "map f ps = map (\<lambda>i. f (ps ! i)) [0..<length ps]"
    by (rule nth_equalityI) simp_all
  then show ?thesis by simp
qed

lemma py_join_blocks:
  "py_join sep ps
     = concat (map (\<lambda>i. (if i = 0 then [] else sep) @ ps ! i) [0..<length ps])"
proof (cases ps)
  case Nil
  then show ?thesis by (simp add: py_join_def)
next
  case (Cons p qs)
  have "concat (map (\<lambda>q. sep @ q) qs) = concat (map (\<lambda>i. sep @ qs ! i) [0..<length qs])"
    by (rule concat_map_nth)
  then show ?thesis
    using Cons by (simp add: py_join_def upt_Suc_shift comp_def del: upt_Suc)
qed

lemma py_join_map_upt:
  "py_join sep (map f [0..<n])
     = concat (map (\<lambda>i. (if i = 0 then [] else sep) @ f i) [0..<n])"
proof -
  have "map (\<lambda>i. (if i = 0 then [] else sep) @ map f [0..<n] ! i) [0..<n]
          = map (\<lambda>i. (if i = 0 then [] else sep) @ f i) [0..<n]"
    by (rule map_cong) simp_all
  then show ?thesis by (simp only: py_join_blocks length_map length_upt diff_zero)
qed

text \<open>
  On hits that are dictionaries whose \<open>metadata\<close> is absent or a dictionary, the
  normaliser returns exactly one chunk per hit, the i-th chunk built from the i-th hit
  (nothing is re-sorted or dropped), and \<open>construct_prompt\<close> over these chunks returns
  the head of the prompt, then one block per chunk in the same order, the i-th block
  (numbered from 1) being \<open>[i] citation\<close>, a newline, the chunk's text and a newline,
  the blocks separated by a newline, then the instructions, the query and the tail.
\<close>

lemma well_formed_hits_keep_order:
  assumes "\<forall>h \<in> set hits. well_formed_hit h"
  shows "normalize_hits hits [] = Inr (map defaulted_chunk hits)
       \<and> construct_prompt render query (map defaulted_chunk hits)
           = Inr (prompt_head
                  @ concat (map (\<lambda>i. (if i = 0 then [] else [10])
                                 @ lit ''['' @ nat_str (Suc i) @ lit ''] ''
                                 @ format_citation render (defaulted_chunk (hits ! i)) @ [10]
                                 @ py_str render
                                     (dict_get (hit_metadata (hits ! i)) (lit ''text'') (VStr []))
                                 @ [10])
                            [0..<length hits])
                  @ prompt_instructions @ query @ prompt_tail)"
proof -
  have n: "normalize_hits hits [] = Inr (map defaulted_chunk hits)"
    using normalize_hits_well_formed [OF assms, of "[]"] by simp
  then have m: "map normalize_hit hits = map Inr (map defaulted_chunk hits)"
    using normalize_hits_acc [of hits "[]" "map defaulted_chunk hits"] by simp
  have t: "dict_get (defaulted_chunk h) (lit ''text'') VNone
             = dict_get (hit_metadata h) (lit ''text'') (VStr [])" for h
    by (simp add: defaulted_chunk_def dict_get_def lit_def)
  have b: "map (\<lambda>i. context_block render (Suc i) (map defaulted_chunk hits ! i)
                       (dict_get (map defaulted_chunk hits ! i) (lit ''text'') VNone))
               [0..<length hits]
           = map (\<lambda>i. context_block render (Suc i) (defaulted_chunk (hits ! i))
                       (dict_get (hit_metadata (hits ! i)) (lit ''text'') (VStr [])))
               [0..<length hits]"
    by (rule map_cong) (simp_all add: t)
  have "construct_prompt render query (map defaulted_chunk hits)
          = Inr (prompt_head
                 @ py_join [10]
                     (map (\<lambda>i. context_block render (Suc i) (defaulted_chunk (hits ! i))
                             (dict_get (hit_metadata (hits ! i)) (lit ''text'') (VStr [])))
                        [0..<length hits])
                 @ prompt_instructions @ query @ prompt_tail)"
    using construct_prompt_of_normalized [OF m, of render query] by (simp only: b length_map)
  then show ?thesis
    using n by (simp add: py_join_map_upt context_block_def)
qed

text \<open>
  C6 (the code diverges from the claim): the claim has one chunk per hit for every list of
  hits. A hit whose \<open>metadata\<close> is present and \<open>null\<close> is read by
  \<open>item.get("metadata", {})\<close> as \<open>None\<close>, the default \<open>{}\<close> applying only to an absent
  key; \<open>metadata.get("text", "")\<close> then raises \<open>AttributeError\<close> and the loop ends
  without any chunk. The first hit alone is normalised to one chunk; followed by such a hit,
  the list of two hits yields no chunk at all.
\<close>

theorem null_metadata_hit_aborts_retrieval:
  "normalize_hits
     [VDict [(lit ''id'', VStr (lit ''v1'')), (lit ''score'', VFloat (9/10)),
             (lit ''metadata'', VDict [(lit ''text'', VStr (lit ''alpha'')),
                                       (lit ''document_name'', VStr (lit ''a.pdf'')),
                                       (lit ''page_number'', VInt 2),
                                       (lit ''chunk_index'', VInt 0)])]] []
   = Inr [[(lit ''id'', VStr (lit ''v1'')), (lit ''similarity'', VFloat (9/10)),
           (lit ''text'', VStr (lit ''alpha'')), (lit ''document_name'', VStr (lit ''a.pdf'')),
           (lit ''page_number'', VInt 2), (lit ''paragraph_index'', VNone),
           (lit ''chunk_index'', VInt 0)]]
   \<and> normalize_hits
     [VDict [(lit ''id'', VStr (lit ''v1'')), (lit ''score'', VFloat (9/10)),
             (lit ''metadata'', VDict [(lit ''text'', VStr (lit ''alpha'')),
                                       (lit ''document_name'', VStr (lit ''a.pdf'')),
                                       (lit ''page_number'', VInt 2),
                                       (lit ''chunk_index'', VInt 0)])],
      VDict [(lit ''id'', VStr (lit ''v2'')), (lit ''score'', VFloat (1/2)),
             (lit ''metadata'', VNone)]] []
   = Inl AttributeError"
  by (simp add: normalize_hit_def py_bind_def py_get_def dict_get_def lit_def)

section \<open>Hits with missing fields\<close>

text \<open>
  C7 (as the claim states it, refuted): the claim has every missing field default to the
  empty string or zero. On a hit whose metadata has no \<open>page_number\<close> and no
  \<open>paragraph_index\<close>, the chunk's entries for both are \<open>None\<close>
  (\<open>metadata.get("page_number")\<close> has no default), which is neither.
\<close>

theorem missing_page_number_is_None:
  "normalize_hit
     (VDict [(lit ''id'', VStr (lit ''v1'')), (lit ''score'', VFloat (1/2)),
             (lit ''metadata'', VDict [(lit ''text'', VStr (lit ''hello''))])])
   = Inr [(lit ''id'', VStr (lit ''v1'')), (lit ''similarity'', VFloat (1/2)),
          (lit ''text'', VStr (lit ''hello'')), (lit ''document_name'', VStr []),
          (lit ''page_number'', VNone), (lit ''paragraph_index'', VNone),
          (lit ''chunk_index'', VInt 0)]
   \<and> VNone \<noteq> VStr [] \<and> VNone \<noteq> VInt 0 \<and> VNone \<noteq> VFloat 0"
  by (simp add: normalize_hit_def py_bind_def py_get_def dict_get_def lit_def)

text \<open>
  C7 (amended): for every list of hits that are dictionaries whose \<open>metadata\<close> is absent or
  a dictionary, normalisation returns one chunk per hit, in which a missing \<open>id\<close>,
  \<open>text\<close> or \<open>document_name\<close> is the empty string, a missing \<open>score\<close> is 0.0, a missing
  \<open>chunk_index\<close> is 0 and a missing \<open>page_number\<close> or \<open>paragraph_index\<close> is \<open>None\<close>; a
  score that is present becomes the similarity as it is; and \<open>construct_prompt\<close> over the
  resulting chunks returns a prompt.
\<close>

theorem malformed_hits_degrade:
  assumes "\<forall>h \<in> set hits. well_formed_hit h"
  shows "normalize_hits hits [] = Inr (map defaulted_chunk hits)
       \<and> (\<forall>h \<in> set hits. \<forall>s. map_of (hit_entries h) (lit ''score'') = Some s \<longrightarrow>
              map_of (defaulted_chunk h) (lit ''similarity'') = Some s)
       \<and> (\<exists>prompt. construct_prompt render query (map defaulted_chunk hits) = Inr prompt)"
proof -
  have n: "normalize_hits hits [] = Inr (map defaulted_chunk hits)"
    using normalize_hits_well_formed [OF assms, of "[]"] by simp
  then have m: "map normalize_hit hits = map Inr (map defaulted_chunk hits)"
    using normalize_hits_acc [of hits "[]" "map defaulted_chunk hits"] by simp
  have s: "\<forall>h \<in> set hits. \<forall>s. map_of (hit_entries h) (lit ''score'') = Some s \<longrightarrow>
              map_of (defaulted_chunk h) (lit ''similarity'') = Some s"
    by (simp add: defaulted_chunk_def dict_get_def lit_def)
  from construct_prompt_of_normalized [OF m, of render query] n s show ?thesis by blast
qed

text \<open>
  The theorem on an empty hit and on a hit whose metadata has only a \<open>text\<close>.
\<close>

theorem malformed_hits_degrade_witness:
  "well_formed_hit (VDict [])
   \<and> well_formed_hit
       (VDict [(lit ''id'', VStr (lit ''v1'')), (lit ''score'', VFloat (1/2)),
               (lit ''metadata'', VDict [(lit ''text'', VStr (lit ''hello''))])])
   \<and> normalize_hits
       [VDict [],
        VDict [(lit ''id'', VStr (lit ''v1'')), (lit ''score'', VFloat (1/2)),
               (lit ''metadata'', VDict [(lit ''text'', VStr (lit ''hello''))])]] []
     = Inr [[(lit ''id'', VStr []), (lit ''similarity'', VFloat 0), (lit ''text'', VStr []),
             (lit ''document_name'', VStr []), (lit ''page_number'', VNone),
             (lit ''paragraph_index'', VNone), (lit ''chunk_index'', VInt 0)],
            [(lit ''id'', VStr (lit ''v1'')), (lit ''similarity'', VFloat (1/2)),
             (lit ''text'', VStr (lit ''hello'')), (lit ''document_name'', VStr []),
             (lit ''page_number'', VNone), (lit ''paragraph_index'', VNone),
             (lit ''chunk_index'', VInt 0)]]"
proof -
  have wf: "\<forall>h \<in> set [VDict [],
        VDict [(lit ''id'', VStr (lit ''v1'')), (lit ''score'', VFloat (1/2)),
               (lit ''metadata'', VDict [(lit ''text'', VStr (lit ''hello''))])]].
      well_formed_hit h"
    by (simp add: lit_def)
  from malformed_hits_degrade [OF wf, of "\<lambda>v. []" "lit ''q''"] wf
  show ?thesis
    by (simp add: defaulted_chunk_def hit_metadata_def dict_get_def lit_def)
qed

section \<open>Failures of the ingestion\<close>





section \<open>Ids of the stored vectors\<close>

lemma nat_str_unfold:
  "nat_str n = (if n < 10 then [48 + n] else nat_str (n div 10) @ [48 + n mod 10])"
  by (rule nat_str.simps)

lemma nat_str_digits: "d \<in> set (nat_str n) \<Longrightarrow> 48 \<le> d \<and> d \<le> 57"
proof (induction n rule: nat_str.induct)
  case (1 n)
  show ?case
  proof (cases "n < 10")
    case True
    then have "nat_str n = [48 + n]" by (subst nat_str_unfold) simp
    then have "d = 48 + n" using "1.prems" by simp
    then show ?thesis using True by arith
  next
    case False
    then have eq: "nat_str n = nat_str (n div 10) @ [48 + n mod 10]"
      by (subst nat_str_unfold) simp
    have "d \<in> set (nat_str (n div 10) @ [48 + n mod 10])"
      using "1.prems" by (simp only: eq)
    then have "d \<in> set (nat_str (n div 10)) \<or> d = 48 + n mod 10"
      by auto
    then show ?thesis
    proof
      assume "d \<in> set (nat_str (n div 10))"
      then show ?thesis by (rule "1.IH" [OF False])
    next
      have "n mod 10 < 10" by simp
      moreover assume "d = 48 + n mod 10"
      ultimately show ?thesis by arith
    qed
  qed
qed

lemma nat_str_value: "foldl (\<lambda>a d. 10 * a + (d - 48)) 0 (nat_str n) = n"
proof (induction n rule: nat_str.induct)
  case (1 n)
  show ?case
  proof (cases "n < 10")
    case True
    then have "nat_str n = [48 + n]" by (subst nat_str_unfold) simp
    then show ?thesis by simp
  next
    case False
    then have "nat_str n = nat_str (n div 10) @ [48 + n mod 10]"
      by (subst nat_str_unfold) simp
    then have "foldl (\<lambda>a d. 10 * a + (d - 48)) 0 (nat_str n)
                 = 10 * foldl (\<lambda>a d. 10 * a + (d - 48)) 0 (nat_str (n div 10)) + n mod 10"
      by simp
    also have "\<dots> = 10 * (n div 10) + n mod 10"
      by (simp only: "1.IH" [OF False])
    also have "\<dots> = n" by simp
    finally show ?thesis .
  qed
qed

lemma nat_str_inj: "nat_str i = nat_str j \<Longrightarrow> i = j"
  by (metis nat_str_value)

lemma suffix_after_separator:
  assumes "a \<notin> set ys" and "a \<notin> set zs" and "xs @ a # ys = ws @ a # zs"
  shows "ys = zs"
proof -
  have "rev ys @ a # rev xs = rev zs @ a # rev ws"
    using arg_cong [OF assms(3), of rev] by simp
  then have "takeWhile (\<lambda>x. x \<noteq> a) (rev ys @ a # rev xs)
               = takeWhile (\<lambda>x. x \<noteq> a) (rev zs @ a # rev ws)"
    by simp
  moreover have "takeWhile (\<lambda>x. x \<noteq> a) (rev ys @ a # rev xs) = rev ys"
    using assms(1) by (subst takeWhile_append2) auto
  moreover have "takeWhile (\<lambda>x. x \<noteq> a) (rev zs @ a # rev ws) = rev zs"
    using assms(2) by (subst takeWhile_append2) auto
  ultimately show ?thesis by simp
qed

lemma chunk_id_inj:
  assumes "chunk_id render c i = chunk_id render c' j"
  shows "i = j"
proof -
  have "95 \<notin> set (nat_str i)" "95 \<notin> set (nat_str j)"
    using nat_str_digits [of 95 i] nat_str_digits [of 95 j] by auto
  then have "nat_str i = nat_str j"
    using assms suffix_after_separator [of 95 "nat_str i" "nat_str j"]
    by (simp add: chunk_id_def)
  then show ?thesis by (rule nat_str_inj)
qed

lemma prepare_vectors_acc:
  "prepare_vectors render idx ps acc
     = acc @ map (\<lambda>i. vector_record render (idx + i) (fst (ps ! i)) (snd (ps ! i)))
               [0..<length ps]"
proof (induction ps arbitrary: idx acc)
  case Nil
  then show ?case by simp
next
  case (Cons p ps)
  obtain c e where p: "p = (c, e)" by (cases p)
  show ?case
    using Cons.IH [of "Suc idx" "acc @ [vector_record render idx c e]"]
    by (simp add: p upt_Suc_shift comp_def del: upt_Suc)
qed

lemma vector_ids:
  "map (\<lambda>v. map_of v (lit ''id'')) (prepare_vectors render 0 (zip chunks embeddings) [])
     = map (\<lambda>i. Some (VStr (chunk_id render (chunks ! i) i)))
         [0..<min (length chunks) (length embeddings)]"
proof -
  have "map (\<lambda>v. map_of v (lit ''id'')) (prepare_vectors render 0 (zip chunks embeddings) [])
     = map (\<lambda>i. Some (VStr (chunk_id render (fst (zip chunks embeddings ! i)) i)))
         [0..<min (length chunks) (length embeddings)]"
    by (simp add: prepare_vectors_acc vector_record_def comp_def)
  also have "\<dots> = map (\<lambda>i. Some (VStr (chunk_id render (chunks ! i) i)))
         [0..<min (length chunks) (length embeddings)]"
    by (rule map_cong) simp_all
  finally show ?thesis .
qed

text \<open>
  C5 (as the claim states it, refuted): the claim has the id built from the document's name
  and a per-document index. Two one-page files \<open>a.pdf\<close> and \<open>b.pdf\<close> give one chunk each.
  The chunk of \<open>b.pdf\<close> is the first of its document (per-document index 0, and its
  \<open>chunk_index\<close> is 0 as well), yet its id is \<open>b.pdf_1\<close>: \<open>idx\<close> is its position in the
  whole batch.
\<close>

theorem vector_id_index_not_per_document:
  "chunk_documents
     [[(lit ''text'', VStr (lit ''alpha'')), (lit ''page_number'', VInt 1),
       (lit ''document_name'', VStr (lit ''a.pdf''))],
      [(lit ''text'', VStr (lit ''beta'')), (lit ''page_number'', VInt 1),
       (lit ''document_name'', VStr (lit ''b.pdf''))]] 500 50
   = Some (Inr
     [[(lit ''text'', VStr (lit ''alpha'')), (lit ''chunk_index'', VInt 0),
       (lit ''page_number'', VInt 1), (lit ''document_name'', VStr (lit ''a.pdf''))],
      [(lit ''text'', VStr (lit ''beta'')), (lit ''chunk_index'', VInt 0),
       (lit ''page_number'', VInt 1), (lit ''document_name'', VStr (lit ''b.pdf''))]])
   \<and> prepare_vectors no_render 0
       (zip
         [[(lit ''text'', VStr (lit ''alpha'')), (lit ''chunk_index'', VInt 0),
           (lit ''page_number'', VInt 1), (lit ''document_name'', VStr (lit ''a.pdf''))],
          [(lit ''text'', VStr (lit ''beta'')), (lit ''chunk_index'', VInt 0),
           (lit ''page_number'', VInt 1), (lit ''document_name'', VStr (lit ''b.pdf''))]]
         [VList [VFloat 1], VList [VFloat 0]]) []
     = [[(lit ''id'', VStr (lit ''a.pdf_0'')), (lit ''vector'', VList [VFloat 1]),
         (lit ''metadata'',
          VDict [(lit ''document_name'', VStr (lit ''a.pdf'')), (lit ''text'', VStr (lit ''alpha'')),
                 (lit ''chunk_index'', VInt 0), (lit ''page_number'', VInt 1)])],
        [(lit ''id'', VStr (lit ''b.pdf_1'')), (lit ''vector'', VList [VFloat 0]),
         (lit ''metadata'',
          VDict [(lit ''document_name'', VStr (lit ''b.pdf'')), (lit ''text'', VStr (lit ''beta'')),
                 (lit ''chunk_index'', VInt 0), (lit ''page_number'', VInt 1)])]]
   \<and> spec_per_document_index
       [[(lit ''text'', VStr (lit ''alpha'')), (lit ''chunk_index'', VInt 0),
         (lit ''page_number'', VInt 1), (lit ''document_name'', VStr (lit ''a.pdf''))],
        [(lit ''text'', VStr (lit ''beta'')), (lit ''chunk_index'', VInt 0),
         (lit ''page_number'', VInt 1), (lit ''document_name'', VStr (lit ''b.pdf''))]] 1 = 0
   \<and> lit ''b.pdf_1'' \<noteq> lit ''b.pdf_'' @ nat_str 0"
proof -
  have a: "chunk_documents
     [[(lit ''text'', VStr (lit ''alpha'')), (lit ''page_number'', VInt 1),
       (lit ''document_name'', VStr (lit ''a.pdf''))],
      [(lit ''text'', VStr (lit ''beta'')), (lit ''page_number'', VInt 1),
       (lit ''document_name'', VStr (lit ''b.pdf''))]] 500 50
   = Some (Inr
     [[(lit ''text'', VStr (lit ''alpha'')), (lit ''chunk_index'', VInt 0),
       (lit ''page_number'', VInt 1), (lit ''document_name'', VStr (lit ''a.pdf''))],
      [(lit ''text'', VStr (lit ''beta'')), (lit ''chunk_index'', VInt 0),
       (lit ''page_number'', VInt 1), (lit ''document_name'', VStr (lit ''b.pdf''))]])"
    by (simp add: chunk_documents_def dict_get_def chunker_eval)
  have b: "prepare_vectors no_render 0
       (zip
         [[(lit ''text'', VStr (lit ''alpha'')), (lit ''chunk_index'', VInt 0),
           (lit ''page_number'', VInt 1), (lit ''document_name'', VStr (lit ''a.pdf''))],
          [(lit ''text'', VStr (lit ''beta'')), (lit ''chunk_index'', VInt 0),
           (lit ''page_number'', VInt 1), (lit ''document_name'', VStr (lit ''b.pdf''))]]
         [VList [VFloat 1], VList [VFloat 0]]) []
     = [[(lit ''id'', VStr (lit ''a.pdf_0'')), (lit ''vector'', VList [VFloat 1]),
         (lit ''metadata'',
          VDict [(lit ''document_name'', VStr (lit ''a.pdf'')), (lit ''text'', VStr (lit ''alpha'')),
                 (lit ''chunk_index'', VInt 0), (lit ''page_number'', VInt 1)])],
        [(lit ''id'', VStr (lit ''b.pdf_1'')), (lit ''vector'', VList [VFloat 0]),
         (lit ''metadata'',
          VDict [(lit ''document_name'', VStr (lit ''b.pdf'')), (lit ''text'', VStr (lit ''beta'')),
                 (lit ''chunk_index'', VInt 0), (lit ''page_number'', VInt 1)])]]"
    by (simp add: vector_record_def chunk_id_def vector_metadata_def dict_get_def lit_def
        nat_str.simps)
  have c: "spec_per_document_index
       [[(lit ''text'', VStr (lit ''alpha'')), (lit ''chunk_index'', VInt 0),
         (lit ''page_number'', VInt 1), (lit ''document_name'', VStr (lit ''a.pdf''))],
        [(lit ''text'', VStr (lit ''beta'')), (lit ''chunk_index'', VInt 0),
         (lit ''page_number'', VInt 1), (lit ''document_name'', VStr (lit ''b.pdf''))]] 1 = 0"
    by (simp add: spec_per_document_index_def lit_def)
  have d: "lit ''b.pdf_1'' \<noteq> lit ''b.pdf_'' @ nat_str 0"
    by (simp add: lit_def nat_str.simps)
  show ?thesis by (rule conjI [OF a conjI [OF b conjI [OF c d]]])
qed

text \<open>
  C5 (amended): the id of the i-th vector of a batch is the \<open>str()\<close> of the
  \<open>document_name\<close> of the i-th chunk (\<open>unknown\<close> when it has none), an underscore and the
  decimal digits of i, the position of the chunk in the whole batch counted from 0; the ids
  of a batch are pairwise different; and they are the same for any embeddings of the same
  number, so ingesting the same chunks again gives the same ids.
\<close>

theorem vector_ids_batch_position:
  "map (\<lambda>v. map_of v (lit ''id'')) (prepare_vectors render 0 (zip chunks embeddings) [])
     = map (\<lambda>i. Some (VStr (py_str render (dict_get (chunks ! i) (lit ''document_name'')
                                               (VStr (lit ''unknown'')))
                              @ [95] @ nat_str i)))
         [0..<min (length chunks) (length embeddings)]
   \<and> distinct (map (\<lambda>v. map_of v (lit ''id''))
                 (prepare_vectors render 0 (zip chunks embeddings) []))
   \<and> (length embeddings' = length embeddings \<longrightarrow>
        map (\<lambda>v. map_of v (lit ''id'')) (prepare_vectors render 0 (zip chunks embeddings') [])
        = map (\<lambda>v. map_of v (lit ''id'')) (prepare_vectors render 0 (zip chunks embeddings) []))"
proof -
  have a: "map (\<lambda>v. map_of v (lit ''id'')) (prepare_vectors render 0 (zip chunks embeddings) [])
     = map (\<lambda>i. Some (VStr (py_str render (dict_get (chunks ! i) (lit ''document_name'')
                                               (VStr (lit ''unknown'')))
                              @ [95] @ nat_str i)))
         [0..<min (length chunks) (length embeddings)]"
    using vector_ids [of render chunks embeddings] by (simp add: chunk_id_def)
  have "inj_on (\<lambda>i. Some (VStr (chunk_id render (chunks ! i) i))) A" for A
    by (rule inj_onI) (auto dest: chunk_id_inj)
  then have b: "distinct (map (\<lambda>v. map_of v (lit ''id''))
                 (prepare_vectors render 0 (zip chunks embeddings) []))"
    by (simp only: vector_ids distinct_map distinct_upt simp_thms)
  have c: "length embeddings' = length embeddings \<longrightarrow>
        map (\<lambda>v. map_of v (lit ''id'')) (prepare_vectors render 0 (zip chunks embeddings') [])
        = map (\<lambda>v. map_of v (lit ''id'')) (prepare_vectors render 0 (zip chunks embeddings) [])"
    by (simp add: vector_ids)
  show ?thesis by (rule conjI [OF a conjI [OF b c]])
qed

text \<open>
  The theorem on the two chunks above, with two different lists of embeddings.
\<close>

theorem vector_ids_batch_position_witness:
  "map (\<lambda>v. map_of v (lit ''id''))
     (prepare_vectors no_render 0
       (zip
         [[(lit ''text'', VStr (lit ''alpha'')), (lit ''chunk_index'', VInt 0),
           (lit ''page_number'', VInt 1), (lit ''document_name'', VStr (lit ''a.pdf''))],
          [(lit ''text'', VStr (lit ''beta'')), (lit ''chunk_index'', VInt 0),
           (lit ''page_number'', VInt 1), (lit ''document_name'', VStr (lit ''b.pdf''))]]
         [VList [VFloat 1], VList [VFloat 0]]) [])
   = [Some (VStr (lit ''a.pdf_0'')), Some (VStr (lit ''b.pdf_1''))]
   \<and> length [VList [VFloat 2], VList [VFloat 3]] = length [VList [VFloat 1], VList [VFloat 0]]
   \<and> map (\<lambda>v. map_of v (lit ''id''))
     (prepare_vectors no_render 0
       (zip
         [[(lit ''text'', VStr (lit ''alpha'')), (lit ''chunk_index'', VInt 0),
           (lit ''page_number'', VInt 1), (lit ''document_name'', VStr (lit ''a.pdf''))],
          [(lit ''text'', VStr (lit ''beta'')), (lit ''chunk_index'', VInt 0),
           (lit ''page_number'', VInt 1), (lit ''document_name'', VStr (lit ''b.pdf''))]]
         [VList [VFloat 2], VList [VFloat 3]]) [])
   = [Some (VStr (lit ''a.pdf_0'')), Some (VStr (lit ''b.pdf_1''))]"
  using vector_ids_batch_position [of no_render
         "[[(lit ''text'', VStr (lit ''alpha'')), (lit ''chunk_index'', VInt 0),
           (lit ''page_number'', VInt 1), (lit ''document_name'', VStr (lit ''a.pdf''))],
          [(lit ''text'', VStr (lit ''beta'')), (lit ''chunk_index'', VInt 0),
           (lit ''page_number'', VInt 1), (lit ''document_name'', VStr (lit ''b.pdf''))]]"
         "[VList [VFloat 1], VList [VFloat 0]]" "[VList [VFloat 2], VList [VFloat 3]]"]
  by (simp add: dict_get_def lit_def nat_str.simps vector_record_def chunk_id_def)

section \<open>A query whose retrieval returns no chunk\<close>

lemma retrieve_chat_calls:
  "chat_calls (snd (retrieve time_at generate_query_embedding post json round2 query top_k w))
     = chat_calls w"
  by (simp add: retrieve_def search_def time_time_def split: sum.splits prod.splits)

text \<open>
  C1: whenever the retrieval step of \<open>generate_answer\<close> returns no chunk,
  \<open>generate_answer\<close> returns the dictionary with the fixed answer, the empty list of
  chunks, the latency that the retrieval returned, \<open>generation_latency_ms\<close> 0 and, as
  \<open>total_latency_ms\<close>, 1000 times the difference between the clock read after the retrieval
  and the clock read at the start; whatever the chat-completion call would return, it is not
  made: the calls recorded afterwards are those recorded before.
\<close>

theorem generate_answer_no_chunks:
  assumes "retrieve time_at generate_query_embedding post json round2 query top_k
             (snd (time_time time_at w))
           = (Inr ([], retrieval_latency, q), w')"
  shows "generate_answer time_at generate_query_embedding post json round2 chat_completion
             render query top_k w
         = (Inr [(lit ''answer'',
                  VStr (lit ''I couldn'' @ [39]
                        @ lit ''t find any relevant information to answer your question.'')),
                 (lit ''chunks'', VList []),
                 (lit ''retrieval_latency_ms'', VFloat retrieval_latency),
                 (lit ''generation_latency_ms'', VInt 0),
                 (lit ''total_latency_ms'',
                  VFloat ((time_at (ticks w') - time_at (ticks w)) * 1000))],
            w'\<lparr>ticks := Suc (ticks w')\<rparr>)
       \<and> chat_calls (snd (generate_answer time_at generate_query_embedding post json round2
                               chat_completion render query top_k w))
           = chat_calls w"
proof -
  have r: "retrieve time_at generate_query_embedding post json round2 query top_k
             (w\<lparr>ticks := Suc (ticks w)\<rparr>)
           = (Inr ([], retrieval_latency, q), w')"
    using assms by (simp add: time_time_def)
  have g: "generate_answer time_at generate_query_embedding post json round2 chat_completion
             render query top_k w
         = (Inr [(lit ''answer'',
                  VStr (lit ''I couldn'' @ [39]
                        @ lit ''t find any relevant information to answer your question.'')),
                 (lit ''chunks'', VList []),
                 (lit ''retrieval_latency_ms'', VFloat retrieval_latency),
                 (lit ''generation_latency_ms'', VInt 0),
                 (lit ''total_latency_ms'',
                  VFloat ((time_at (ticks w') - time_at (ticks w)) * 1000))],
            w'\<lparr>ticks := Suc (ticks w')\<rparr>)"
    by (simp add: generate_answer_def time_time_def r)
  have "chat_calls w' = chat_calls (w\<lparr>ticks := Suc (ticks w)\<rparr>)"
    using retrieve_chat_calls [of time_at generate_query_embedding post json round2 query top_k
        "w\<lparr>ticks := Suc (ticks w)\<rparr>"]
    by (simp only: r snd_conv)
  then have c: "chat_calls (snd (generate_answer time_at generate_query_embedding post json
                     round2 chat_completion render query top_k w))
           = chat_calls w"
    by (simp add: g)
  show ?thesis by (rule conjI [OF g c])
qed

text \<open>
  The theorem on a search that answers with no hit, the clock reading 0, 1, 2, 3 seconds:
  the retrieval takes its two reads at 1 and 2 and returns 1000 ms, the total is 3000 ms,
  and no prompt has been sent.
\<close>

theorem generate_answer_no_chunks_witness:
  "retrieve (\<lambda>n. real n) (\<lambda>query. Inr (VList [VFloat 1])) (\<lambda>v k. Inr ())
       (\<lambda>response. Inr (VDict [(lit ''results'', VList [])])) (\<lambda>x. x) (lit ''q'') 5
       (snd (time_time (\<lambda>n. real n) \<lparr>ticks = 0, chat_calls = []\<rparr>))
     = (Inr ([], 1000, lit ''q''), \<lparr>ticks = 3, chat_calls = []\<rparr>)
   \<and> generate_answer (\<lambda>n. real n) (\<lambda>query. Inr (VList [VFloat 1])) (\<lambda>v k. Inr ())
       (\<lambda>response. Inr (VDict [(lit ''results'', VList [])])) (\<lambda>x. x)
       (\<lambda>prompt. Inr (VStr (lit ''an answer''))) (\<lambda>v. []) (lit ''q'') 5
       \<lparr>ticks = 0, chat_calls = []\<rparr>
     = (Inr [(lit ''answer'',
              VStr (lit ''I couldn'' @ [39]
                    @ lit ''t find any relevant information to answer your question.'')),
             (lit ''chunks'', VList []),
             (lit ''retrieval_latency_ms'', VFloat 1000),
             (lit ''generation_latency_ms'', VInt 0),
             (lit ''total_latency_ms'', VFloat 3000)],
        \<lparr>ticks = 4, chat_calls = []\<rparr>)"
proof -
  have h: "retrieve (\<lambda>n. real n) (\<lambda>query. Inr (VList [VFloat 1])) (\<lambda>v k. Inr ())
       (\<lambda>response. Inr (VDict [(lit ''results'', VList [])])) (\<lambda>x. x) (lit ''q'') 5
       (snd (time_time (\<lambda>n. real n) \<lparr>ticks = 0, chat_calls = []\<rparr>))
     = (Inr ([], 1000, lit ''q''), \<lparr>ticks = 3, chat_calls = []\<rparr>)"
    by (simp add: retrieve_def search_def time_time_def py_bind_def py_get_def dict_get_def
        lit_def)
  from generate_answer_no_chunks [OF h,
      where chat_completion = "\<lambda>prompt. Inr (VStr (lit ''an answer''))"
        and render = "\<lambda>v. []"] h
  show ?thesis by simp
qed

text \<open>
  For comparison, when the retrieval returns chunks and the prompt is built, the
  chat-completion call is made once, with that prompt, whether it returns or raises.
\<close>

lemma generate_answer_calls_chat:
  assumes "retrieve time_at generate_query_embedding post json round2 query top_k
             (snd (time_time time_at w))
           = (Inr (chunks, retrieval_latency, q), w')"
    and "chunks \<noteq> []"
    and "construct_prompt render query chunks = Inr prompt"
  shows "chat_calls (snd (generate_answer time_at generate_query_embedding post json round2
                            chat_completion render query top_k w))
         = chat_calls w @ [prompt]"
proof -
  have r: "retrieve time_at generate_query_embedding post json round2 query top_k
             (w\<lparr>ticks := Suc (ticks w)\<rparr>)
           = (Inr (chunks, retrieval_latency, q), w')"
    using assms(1) by (simp add: time_time_def)
  have "chat_calls w' = chat_calls (w\<lparr>ticks := Suc (ticks w)\<rparr>)"
    using retrieve_chat_calls [of time_at generate_query_embedding post json round2 query top_k
        "w\<lparr>ticks := Suc (ticks w)\<rparr>"]
    by (simp only: r snd_conv)
  then show ?thesis
    using assms(2,3)
    by (cases "chat_completion prompt")
       (simp_all add: generate_answer_def time_time_def r Let_def)
qed

end
